theory Spec2Isabelle
  imports Main
begin

section \<open>Ants vs. SomeBees: the object model of ants.py\<close>

text \<open>
  Python objects live in a store. Places, ants and bees are kept in three heaps indexed by
  references (natural numbers, handed out by a counter at construction); \<open>is\<close> and the
  default \<open>==\<close> of Python objects are equality of references. \<open>Place.add_insect\<close> files an
  insect under \<open>bees\<close> or \<open>ant\<close> by \<open>is_ant()\<close>, so a place's bee list holds bee references
  and its ant slot an ant reference. A raised exception is a value \<open>Inl e\<close>; the store at the
  moment of the raise is dropped.
\<close>

type_synonym place_ref = nat
type_synonym ant_ref = nat
type_synonym bee_ref = nat

datatype error = AssertionError | KeyError | ValueError | AttributeError | IndexError

datatype insect_ref = AntRef ant_ref | BeeRef bee_ref

datatype place_class = PlaceC | WaterC | HiveC

datatype ant_class =
    Ant | HarvesterAnt | ThrowerAnt | FireAnt | LongThrower | ShortThrower | WallAnt
  | NinjaAnt | ScubaThrower | HungryAnt | BodyguardAnt | QueenAnt | AntRemover
  | SlowThrower | StunThrower

subsection \<open>Class attributes, with inheritance resolved\<close>

text \<open>The class \<open>Ant\<close> itself defines no \<open>name\<close>.\<close>

fun class_name :: "ant_class \<Rightarrow> string option" where
  "class_name Ant = None"
| "class_name HarvesterAnt = Some ''Harvester''"
| "class_name ThrowerAnt = Some ''Thrower''"
| "class_name FireAnt = Some ''Fire''"
| "class_name LongThrower = Some ''Long''"
| "class_name ShortThrower = Some ''Short''"
| "class_name WallAnt = Some ''Wall''"
| "class_name NinjaAnt = Some ''Ninja''"
| "class_name ScubaThrower = Some ''Scuba''"
| "class_name HungryAnt = Some ''Hungry''"
| "class_name BodyguardAnt = Some ''Bodyguard''"
| "class_name QueenAnt = Some ''Queen''"
| "class_name AntRemover = Some ''Remover''"
| "class_name SlowThrower = Some ''Slow''"
| "class_name StunThrower = Some ''Stun''"

fun implemented :: "ant_class \<Rightarrow> bool" where
  "implemented Ant = False"
| "implemented HarvesterAnt = True"
| "implemented ThrowerAnt = True"
| "implemented FireAnt = True"
| "implemented LongThrower = True"
| "implemented ShortThrower = True"
| "implemented WallAnt = True"
| "implemented NinjaAnt = True"
| "implemented ScubaThrower = True"
| "implemented HungryAnt = False"
| "implemented BodyguardAnt = True"
| "implemented QueenAnt = False"
| "implemented AntRemover = True"
| "implemented SlowThrower = False"
| "implemented StunThrower = False"

fun class_damage :: "ant_class \<Rightarrow> int" where
  "class_damage ThrowerAnt = 1"
| "class_damage FireAnt = 3"
| "class_damage LongThrower = 1"
| "class_damage ShortThrower = 1"
| "class_damage NinjaAnt = 1"
| "class_damage ScubaThrower = 1"
| "class_damage QueenAnt = 1"
| "class_damage SlowThrower = 1"
| "class_damage StunThrower = 1"
| "class_damage _ = 0"

fun food_cost :: "ant_class \<Rightarrow> int" where
  "food_cost Ant = 0"
| "food_cost HarvesterAnt = 2"
| "food_cost ThrowerAnt = 4"
| "food_cost FireAnt = 4"
| "food_cost LongThrower = 3"
| "food_cost ShortThrower = 3"
| "food_cost WallAnt = 4"
| "food_cost NinjaAnt = 6"
| "food_cost ScubaThrower = 5"
| "food_cost HungryAnt = 4"
| "food_cost BodyguardAnt = 4"
| "food_cost QueenAnt = 6"
| "food_cost AntRemover = 0"
| "food_cost SlowThrower = 4"
| "food_cost StunThrower = 4"

fun watersafe :: "ant_class \<Rightarrow> bool" where
  "watersafe ScubaThrower = True"
| "watersafe QueenAnt = True"
| "watersafe _ = False"


fun container :: "ant_class \<Rightarrow> bool" where
  "container BodyguardAnt = True"
| "container _ = False"

fun min_range :: "ant_class \<Rightarrow> nat" where
  "min_range LongThrower = 4"
| "min_range _ = 0"

fun max_range :: "ant_class \<Rightarrow> nat" where
  "max_range ShortThrower = 2"
| "max_range _ = 10"

text \<open>The armor each constructor passes to \<open>Insect.__init__\<close>.\<close>

fun init_armor :: "ant_class \<Rightarrow> int" where
  "init_armor WallAnt = 4"
| "init_armor BodyguardAnt = 2"
| "init_armor AntRemover = 0"
| "init_armor _ = 1"

text \<open>\<open>c.__subclasses__()\<close>: the direct subclasses, in the order of their definition.\<close>

fun subclasses :: "ant_class \<Rightarrow> ant_class list" where
  "subclasses Ant =
     [HarvesterAnt, ThrowerAnt, FireAnt, WallAnt, NinjaAnt, HungryAnt, BodyguardAnt, AntRemover]"
| "subclasses ThrowerAnt = [LongThrower, ShortThrower, ScubaThrower, SlowThrower, StunThrower]"
| "subclasses ScubaThrower = [QueenAnt]"
| "subclasses _ = []"

text \<open>The height of a class in the subclass tree bounds the loop of \<open>ant_types\<close>.\<close>

fun class_height :: "ant_class \<Rightarrow> nat" where
  "class_height Ant = 4"
| "class_height ThrowerAnt = 3"
| "class_height ScubaThrower = 2"
| "class_height _ = 1"

fun max_height :: "ant_class list \<Rightarrow> nat" where
  "max_height [] = 0"
| "max_height (c # cs) = max (class_height c) (max_height cs)"


subsection \<open>Objects and the store\<close>

text \<open>
  \<open>Insect\<close> has \<open>armor\<close> and \<open>place\<close>; a \<open>Bee\<close> adds no field. An \<open>Ant\<close> adds its class,
  \<open>damage\<close> (read through the instance, so the Queen's \<open>ant.damage *= 2\<close> is an update of
  the field, which starts at the class's value), the ant hidden in a \<open>BodyguardAnt\<close>
  (Python's \<open>self.ant\<close>, here \<open>contained\<close>), and the fields of \<open>QueenAnt\<close> and \<open>HungryAnt\<close>.
\<close>

record insect =
  armor :: int
  place :: "place_ref option"

record ant_obj = insect +
  cls :: ant_class
  damage :: int
  contained :: "ant_ref option"
  instance_num :: int
  doubled_ants :: "ant_ref list"
  digesting :: int

record place_obj =
  place_class :: place_class
  name :: string
  exit :: "place_ref option"
  bees :: "bee_ref list"
  ant :: "ant_ref option"
  entrance :: "place_ref option"
  hive_assault_plan :: "(int \<times> bee_ref list) list"

text \<open>
  \<open>hive_assault_plan\<close> is the attribute \<open>assault_plan\<close> of a \<open>Hive\<close>, the waves of the plan
  it was built from; it is read for a hive only and is empty for the other places.
\<close>

text \<open>\<open>colony.queen\<close> is a \<open>Place\<close> until the Queen acts, then a \<open>QueenPlace\<close> of two places.\<close>

datatype queen_obj = QueenIs place_ref | QueenPlace place_ref place_ref

text \<open>What \<open>print\<close> writes, one event per call.\<close>

datatype event =
    Expired insect_ref
  | Added insect_ref bool
  | NotEnoughFood string
  | QueenHasPerished
  | AllBeesVanquished

text \<open>
  The store, the class attribute \<open>QueenAnt.number_of_queens\<close>, the printed output and the
  attributes of the one \<open>AntColony\<close>. Dictionaries are association lists in insertion order.
\<close>

record world =
  place_heap :: "place_ref \<Rightarrow> place_obj"
  ant_heap :: "ant_ref \<Rightarrow> ant_obj"
  bee_heap :: "bee_ref \<Rightarrow> insect"
  next_place :: nat
  next_ant :: nat
  next_bee :: nat
  number_of_queens :: int
  printed :: "event list"
  time :: int
  food :: int
  hive :: place_ref
  colony_ant_types :: "(string \<times> ant_class) list"
  queen :: queen_obj
  places :: "(string \<times> place_ref) list"
  bee_entrances :: "place_ref list"

definition upd_place :: "place_ref \<Rightarrow> (place_obj \<Rightarrow> place_obj) \<Rightarrow> world \<Rightarrow> world" where
  "upd_place p f s = s\<lparr>place_heap := (place_heap s)(p := f (place_heap s p))\<rparr>"

definition upd_ant :: "ant_ref \<Rightarrow> (ant_obj \<Rightarrow> ant_obj) \<Rightarrow> world \<Rightarrow> world" where
  "upd_ant a f s = s\<lparr>ant_heap := (ant_heap s)(a := f (ant_heap s a))\<rparr>"

definition upd_bee :: "bee_ref \<Rightarrow> (insect \<Rightarrow> insect) \<Rightarrow> world \<Rightarrow> world" where
  "upd_bee b f s = s\<lparr>bee_heap := (bee_heap s)(b := f (bee_heap s b))\<rparr>"

definition print_event :: "event \<Rightarrow> world \<Rightarrow> world" where
  "print_event e s = s\<lparr>printed := printed s @ [e]\<rparr>"

text \<open>\<open>d[k] = v\<close> on an ordered dictionary: a known key keeps its position.\<close>

fun dict_set :: "'k \<Rightarrow> 'v \<Rightarrow> ('k \<times> 'v) list \<Rightarrow> ('k \<times> 'v) list" where
  "dict_set k v [] = [(k, v)]"
| "dict_set k v ((k', v') # d) = (if k = k' then (k, v) # d else (k', v') # dict_set k v d)"

text \<open>A loop whose body may raise stops at the first exception.\<close>

fun for_each :: "('a \<Rightarrow> 's \<Rightarrow> error + 's) \<Rightarrow> 'a list \<Rightarrow> 's \<Rightarrow> error + 's" where
  "for_each body [] s = Inr s"
| "for_each body (x # xs) s =
     (case body x s of Inl e \<Rightarrow> Inl e | Inr s' \<Rightarrow> for_each body xs s')"

subsection \<open>Place\<close>

text \<open>\<open>Place.__init__\<close> (also run for \<open>Water\<close>): a new place, and the exit's entrance set to it.\<close>

definition Place_init :: "place_class \<Rightarrow> string \<Rightarrow> place_ref option \<Rightarrow> world \<Rightarrow> place_ref \<times> world" where
  "Place_init c nm ex s =
     (let p = next_place s;
          s1 = s\<lparr>place_heap := (place_heap s)(p :=
                   \<lparr>place_class = c, name = nm, exit = ex, bees = [], ant = None,
                    entrance = None, hive_assault_plan = []\<rparr>),
                 next_place := Suc p\<rparr>
      in (p, case ex of None \<Rightarrow> s1
                | Some e \<Rightarrow> upd_place e (\<lambda>x. x\<lparr>entrance := Some p\<rparr>) s1))"

text \<open>\<open>Ant.can_contain\<close>; \<open>contain_ant\<close> exists on \<open>BodyguardAnt\<close> only, the one container.\<close>

definition can_contain :: "world \<Rightarrow> ant_ref \<Rightarrow> ant_ref \<Rightarrow> bool" where
  "can_contain s self other =
     (container (cls (ant_heap s self)) \<and> contained (ant_heap s self) = None
      \<and> \<not> container (cls (ant_heap s other)))"

definition set_insect_place :: "insect_ref \<Rightarrow> place_ref option \<Rightarrow> world \<Rightarrow> world" where
  "set_insect_place i p s =
     (case i of AntRef a \<Rightarrow> upd_ant a (\<lambda>x. x\<lparr>place := p\<rparr>) s
              | BeeRef b \<Rightarrow> upd_bee b (\<lambda>x. x\<lparr>place := p\<rparr>) s)"

definition Place_add_insect :: "place_ref \<Rightarrow> insect_ref \<Rightarrow> world \<Rightarrow> error + world" where
  "Place_add_insect p i s =
     (case i of
        AntRef a \<Rightarrow>
          (case ant (place_heap s p) of
             None \<Rightarrow> Inr (set_insect_place i (Some p) (upd_place p (\<lambda>x. x\<lparr>ant := Some a\<rparr>) s))
           | Some cur \<Rightarrow>
               if can_contain s cur a
               then Inr (set_insect_place i (Some p) (upd_ant cur (\<lambda>x. x\<lparr>contained := Some a\<rparr>) s))
               else if can_contain s a cur
               then Inr (set_insect_place i (Some p)
                      (upd_place p (\<lambda>x. x\<lparr>ant := Some a\<rparr>)
                        (upd_ant a (\<lambda>x. x\<lparr>contained := Some cur\<rparr>) s)))
               else Inl AssertionError)
      | BeeRef b \<Rightarrow>
          Inr (set_insect_place i (Some p) (upd_place p (\<lambda>x. x\<lparr>bees := bees x @ [b]\<rparr>) s)))"

text \<open>
  \<open>Place.remove_insect\<close>. \<open>list.remove\<close> raises \<open>ValueError\<close> for an absent bee; the assertion
  guards the ant slot; the first \<open>QueenAnt\<close> returns before anything is changed.
\<close>

definition remove_insect :: "place_ref \<Rightarrow> insect_ref \<Rightarrow> world \<Rightarrow> error + world" where
  "remove_insect p i s =
     (case i of
        BeeRef b \<Rightarrow>
          if b \<in> set (bees (place_heap s p))
          then Inr (set_insect_place i None (upd_place p (\<lambda>x. x\<lparr>bees := remove1 b (bees x)\<rparr>) s))
          else Inl ValueError
      | AntRef a \<Rightarrow>
          if ant (place_heap s p) \<noteq> Some a then Inl AssertionError
          else if cls (ant_heap s a) = QueenAnt \<and> instance_num (ant_heap s a) = 0 then Inr s
          else Inr (set_insect_place i None
                 (upd_place p (\<lambda>x. x\<lparr>ant :=
                    (if container (cls (ant_heap s a)) \<and> contained (ant_heap s a) \<noteq> None
                     then contained (ant_heap s a) else None)\<rparr>) s)))"

subsection \<open>Insect.reduce_armor and the override of FireAnt\<close>

definition insect_armor :: "world \<Rightarrow> insect_ref \<Rightarrow> int" where
  "insect_armor s i = (case i of AntRef a \<Rightarrow> armor (ant_heap s a) | BeeRef b \<Rightarrow> armor (bee_heap s b))"

definition insect_place :: "world \<Rightarrow> insect_ref \<Rightarrow> place_ref option" where
  "insect_place s i = (case i of AntRef a \<Rightarrow> place (ant_heap s a) | BeeRef b \<Rightarrow> place (bee_heap s b))"

definition sub_armor :: "insect_ref \<Rightarrow> int \<Rightarrow> world \<Rightarrow> world" where
  "sub_armor i amount s =
     (case i of AntRef a \<Rightarrow> upd_ant a (\<lambda>x. x\<lparr>armor := armor x - amount\<rparr>) s
              | BeeRef b \<Rightarrow> upd_bee b (\<lambda>x. x\<lparr>armor := armor x - amount\<rparr>) s)"

definition Insect_reduce_armor :: "insect_ref \<Rightarrow> int \<Rightarrow> world \<Rightarrow> error + world" where
  "Insect_reduce_armor i amount s =
     (let s1 = sub_armor i amount s in
      if insect_armor s1 i \<le> 0
      then (case insect_place s1 i of
              None \<Rightarrow> Inl AttributeError
            | Some p \<Rightarrow> remove_insect p i (print_event (Expired i) s1))
      else Inr s1)"

definition FireAnt_reduce_armor :: "ant_ref \<Rightarrow> int \<Rightarrow> world \<Rightarrow> error + world" where
  "FireAnt_reduce_armor a amount s =
     (let s1 = sub_armor (AntRef a) amount s in
      if armor (ant_heap s1 a) \<le> 0
      then (case place (ant_heap s1 a) of
              None \<Rightarrow> Inl AttributeError
            | Some p \<Rightarrow>
                (case for_each (\<lambda>b. Insect_reduce_armor (BeeRef b) (damage (ant_heap s1 a)))
                        (bees (place_heap s1 p)) s1 of
                   Inl e \<Rightarrow> Inl e
                 | Inr s2 \<Rightarrow> remove_insect p (AntRef a) s2))
      else Inr s1)"

definition reduce_armor :: "insect_ref \<Rightarrow> int \<Rightarrow> world \<Rightarrow> error + world" where
  "reduce_armor i amount s =
     (case i of
        AntRef a \<Rightarrow> if cls (ant_heap s a) = FireAnt then FireAnt_reduce_armor a amount s
                    else Insect_reduce_armor i amount s
      | BeeRef b \<Rightarrow> Insect_reduce_armor i amount s)"

text \<open>\<open>Water.add_insect\<close>; every \<open>Bee\<close> is watersafe.\<close>

definition insect_watersafe :: "world \<Rightarrow> insect_ref \<Rightarrow> bool" where
  "insect_watersafe s i = (case i of AntRef a \<Rightarrow> watersafe (cls (ant_heap s a)) | BeeRef b \<Rightarrow> True)"

definition Water_add_insect :: "place_ref \<Rightarrow> insect_ref \<Rightarrow> world \<Rightarrow> error + world" where
  "Water_add_insect p i s =
     (case Place_add_insect p i (print_event (Added i (insect_watersafe s i)) s) of
        Inl e \<Rightarrow> Inl e
      | Inr s1 \<Rightarrow> if \<not> insect_watersafe s1 i then reduce_armor i (insect_armor s1 i) s1
                  else Inr s1)"

definition add_insect :: "place_ref \<Rightarrow> insect_ref \<Rightarrow> world \<Rightarrow> error + world" where
  "add_insect p i s =
     (if place_class (place_heap s p) = WaterC then Water_add_insect p i s
      else Place_add_insect p i s)"


subsection \<open>Constructors of insects\<close>

text \<open>
  \<open>constructor()\<close> for an ant class. \<open>QueenAnt.__init__\<close> numbers the instance with the class
  counter and increments it.
\<close>

definition new_ant :: "ant_class \<Rightarrow> world \<Rightarrow> ant_ref \<times> world" where
  "new_ant c s =
     (let a = next_ant s in
      (a, s\<lparr>ant_heap := (ant_heap s)(a :=
               \<lparr>armor = init_armor c, place = None, cls = c, damage = class_damage c,
                contained = None,
                instance_num = (if c = QueenAnt then number_of_queens s else 0),
                doubled_ants = [], digesting = 0\<rparr>),
             next_ant := Suc a,
             number_of_queens :=
               (if c = QueenAnt then number_of_queens s + 1 else number_of_queens s)\<rparr>))"

definition new_bee :: "int \<Rightarrow> world \<Rightarrow> bee_ref \<times> world" where
  "new_bee a s =
     (let b = next_bee s in
      (b, s\<lparr>bee_heap := (bee_heap s)(b := \<lparr>armor = a, place = None\<rparr>), next_bee := Suc b\<rparr>))"

subsection \<open>AssaultPlan\<close>

text \<open>
  An \<open>AssaultPlan\<close> is a \<open>dict\<close> from times to waves; a dictionary iterates in the order in
  which its keys were first inserted.
\<close>

record assault_plan =
  bee_armor :: int
  waves :: "(int \<times> bee_ref list) list"

definition AssaultPlan :: "int \<Rightarrow> assault_plan" where
  "AssaultPlan a = \<lparr>bee_armor = a, waves = []\<rparr>"

text \<open>\<open>[Bee(self.bee_armor) for _ in range(count)]\<close>\<close>

fun new_bees :: "nat \<Rightarrow> int \<Rightarrow> world \<Rightarrow> bee_ref list \<times> world" where
  "new_bees 0 a s = ([], s)"
| "new_bees (Suc n) a s =
     (let (b, s1) = new_bee a s; (bs, s2) = new_bees n a s1 in (b # bs, s2))"

text \<open>\<open>self.setdefault(time, []).extend(bees)\<close>\<close>

fun setdefault_extend :: "int \<Rightarrow> bee_ref list \<Rightarrow> (int \<times> bee_ref list) list \<Rightarrow> (int \<times> bee_ref list) list" where
  "setdefault_extend t new [] = [(t, new)]"
| "setdefault_extend t new ((k, w) # d) =
     (if t = k then (k, w @ new) # d else (k, w) # setdefault_extend t new d)"

definition add_wave :: "int \<Rightarrow> int \<Rightarrow> assault_plan \<times> world \<Rightarrow> assault_plan \<times> world" where
  "add_wave t count ps =
     (let (new, s1) = new_bees (nat count) (bee_armor (fst ps)) (snd ps)
      in ((fst ps)\<lparr>waves := setdefault_extend t new (waves (fst ps))\<rparr>, s1))"

definition all_bees :: "assault_plan \<Rightarrow> bee_ref list" where
  "all_bees plan = concat (map snd (waves plan))"

subsection \<open>Hive\<close>

definition Hive_init :: "assault_plan \<Rightarrow> world \<Rightarrow> error + place_ref \<times> world" where
  "Hive_init plan s =
     (let p = next_place s;
          s1 = s\<lparr>place_heap := (place_heap s)(p :=
                   \<lparr>place_class = HiveC, name = ''Hive'', exit = None, bees = [], ant = None,
                    entrance = None, hive_assault_plan = waves plan\<rparr>),
                 next_place := Suc p\<rparr>
      in case for_each (\<lambda>b. add_insect p (BeeRef b)) (all_bees plan) s1 of
           Inl e \<Rightarrow> Inl e
         | Inr s2 \<Rightarrow>
             Inr (p, upd_place p (\<lambda>x. x\<lparr>entrance := None, ant := None, exit := None\<rparr>) s2))"

subsection \<open>AntColony\<close>

text \<open>\<open>str\<close> of a non-negative integer, as \<open>format\<close> writes the loop counters.\<close>

function str_nat :: "nat \<Rightarrow> string" where
  "str_nat n =
     (if n < 10 then [''0123456789'' ! n]
      else str_nat (n div 10) @ [''0123456789'' ! (n mod 10)])"
  by pat_completeness auto
termination
  by (relation "measure id") auto

declare str_nat.simps [simp del]

text \<open>The closure \<open>register_place\<close> of \<open>configure\<close>; \<open>hv\<close> is the parameter \<open>hive\<close> it captures.\<close>

definition register_place :: "place_ref \<Rightarrow> place_ref \<Rightarrow> bool \<Rightarrow> world \<Rightarrow> world" where
  "register_place hv p is_bee_entrance s =
     (let s1 = s\<lparr>places := dict_set (name (place_heap s p)) p (places s)\<rparr> in
      if is_bee_entrance
      then (upd_place p (\<lambda>x. x\<lparr>entrance := Some hv\<rparr>) s1)
             \<lparr>bee_entrances := bee_entrances s1 @ [p]\<rparr>
      else s1)"

text \<open>The inner loop of \<open>mixed_layout\<close> over the steps of one tunnel; \<open>ex\<close> is its variable \<open>exit\<close>.\<close>

fun tunnel_steps ::
  "(place_ref \<Rightarrow> bool \<Rightarrow> world \<Rightarrow> world) \<Rightarrow> int \<Rightarrow> int \<Rightarrow> nat \<Rightarrow> nat list \<Rightarrow> place_ref \<Rightarrow> world \<Rightarrow> world" where
  "tunnel_steps reg len moat_frequency tunnel [] ex s = s"
| "tunnel_steps reg len moat_frequency tunnel (step # steps) ex s =
     (let (p, s1) =
            (if moat_frequency \<noteq> 0 \<and> (int step + 1) mod moat_frequency = 0
             then Place_init WaterC (''water_'' @ str_nat tunnel @ ''_'' @ str_nat step) (Some ex) s
             else Place_init PlaceC (''tunnel_'' @ str_nat tunnel @ ''_'' @ str_nat step) (Some ex) s)
      in tunnel_steps reg len moat_frequency tunnel steps p (reg p (int step = len - 1) s1))"

definition mixed_layout ::
  "int \<Rightarrow> int \<Rightarrow> int \<Rightarrow> place_ref \<Rightarrow> (place_ref \<Rightarrow> bool \<Rightarrow> world \<Rightarrow> world) \<Rightarrow> world \<Rightarrow> world" where
  "mixed_layout len tunnels moat_frequency queen_place reg s =
     fold (\<lambda>tunnel. tunnel_steps reg len moat_frequency tunnel [0..<nat len] queen_place)
       [0..<nat tunnels] s"

definition test_layout :: "place_ref \<Rightarrow> (place_ref \<Rightarrow> bool \<Rightarrow> world \<Rightarrow> world) \<Rightarrow> world \<Rightarrow> world" where
  "test_layout = mixed_layout 8 1 0"

definition dry_layout :: "place_ref \<Rightarrow> (place_ref \<Rightarrow> bool \<Rightarrow> world \<Rightarrow> world) \<Rightarrow> world \<Rightarrow> world" where
  "dry_layout = mixed_layout 8 3 0"

definition configure ::
  "place_ref \<Rightarrow> (place_ref \<Rightarrow> (place_ref \<Rightarrow> bool \<Rightarrow> world \<Rightarrow> world) \<Rightarrow> world \<Rightarrow> world) \<Rightarrow> world \<Rightarrow> world" where
  "configure hv create_places s =
     (let (q, s1) = Place_init PlaceC ''AntQueen'' None s;
          s2 = s1\<lparr>queen := QueenIs q, places := [], bee_entrances := []\<rparr>;
          s3 = register_place hv (hive s2) False s2
      in create_places q (register_place hv) s3)"

text \<open>\<open>OrderedDict((a.name, a) for a in ant_types)\<close>\<close>

fun name_dict :: "ant_class list \<Rightarrow> (string \<times> ant_class) list \<Rightarrow> error + (string \<times> ant_class) list" where
  "name_dict [] d = Inr d"
| "name_dict (a # as) d =
     (case class_name a of None \<Rightarrow> Inl AttributeError | Some n \<Rightarrow> name_dict as (dict_set n a d))"

definition AntColony_init ::
  "place_ref \<Rightarrow> ant_class list \<Rightarrow> (place_ref \<Rightarrow> (place_ref \<Rightarrow> bool \<Rightarrow> world \<Rightarrow> world) \<Rightarrow> world \<Rightarrow> world)
     \<Rightarrow> int \<Rightarrow> world \<Rightarrow> error + world" where
  "AntColony_init hv types create_places fd s =
     (case name_dict types [] of
        Inl e \<Rightarrow> Inl e
      | Inr d \<Rightarrow>
          Inr (configure hv create_places
                 (s\<lparr>time := 0, food := fd, hive := hv, colony_ant_types := d\<rparr>)))"

definition deploy_ant :: "string \<Rightarrow> string \<Rightarrow> world \<Rightarrow> error + world" where
  "deploy_ant place_name ant_type_name s =
     (case map_of (colony_ant_types s) ant_type_name of
        None \<Rightarrow> Inl KeyError
      | Some constructor \<Rightarrow>
          if food s < food_cost constructor
          then Inr (print_event (NotEnoughFood ant_type_name) s)
          else (case map_of (places s) place_name of
                  None \<Rightarrow> Inl KeyError
                | Some p \<Rightarrow>
                    (let (a, s1) = new_ant constructor s in
                     case add_insect p (AntRef a) s1 of
                       Inl e \<Rightarrow> Inl e
                     | Inr s2 \<Rightarrow> Inr (s2\<lparr>food := food s2 - food_cost constructor\<rparr>))))"

definition remove_ant :: "string \<Rightarrow> world \<Rightarrow> error + world" where
  "remove_ant place_name s =
     (case map_of (places s) place_name of
        None \<Rightarrow> Inl KeyError
      | Some p \<Rightarrow>
          (case ant (place_heap s p) of
             None \<Rightarrow> Inr s
           | Some a \<Rightarrow> remove_insect p (AntRef a) s))"

definition colony_ants :: "world \<Rightarrow> ant_ref list" where
  "colony_ants s = concat (map (\<lambda>np. case ant (place_heap s (snd np)) of None \<Rightarrow> [] | Some a \<Rightarrow> [a]) (places s))"

definition colony_bees :: "world \<Rightarrow> bee_ref list" where
  "colony_bees s = concat (map (\<lambda>np. bees (place_heap s (snd np))) (places s))"

text \<open>\<open>colony.queen.bees\<close>, for a \<open>Place\<close> and for a \<open>QueenPlace\<close>.\<close>

definition queen_bees :: "world \<Rightarrow> bee_ref list" where
  "queen_bees s =
     (case queen s of
        QueenIs q \<Rightarrow> bees (place_heap s q)
      | QueenPlace cq aq \<Rightarrow> bees (place_heap s cq) @ bees (place_heap s aq))"


subsection \<open>ant_types\<close>

lemma subclasses_lower: "d \<in> set (subclasses c) \<Longrightarrow> class_height d < class_height c"
  by (cases c) auto

lemma class_height_pos: "0 < class_height c"
  by (cases c) auto

lemma max_height_less: "max_height cs < n \<longleftrightarrow> 0 < n \<and> (\<forall>c \<in> set cs. class_height c < n)"
  by (induction cs) auto

lemma class_height_le_max: "c \<in> set cs \<Longrightarrow> class_height c \<le> max_height cs"
  by (induction cs) auto

lemma max_height_subclasses:
  assumes "cs \<noteq> []"
  shows "max_height (concat (map subclasses cs)) < max_height cs"
proof -
  from assms obtain c0 where "c0 \<in> set cs" by (cases cs) auto
  then have pos: "0 < max_height cs"
    using class_height_le_max [of c0 cs] class_height_pos [of c0] by linarith
  have "class_height d < max_height cs" if "d \<in> set (concat (map subclasses cs))" for d
  proof -
    from that obtain c where "c \<in> set cs" "d \<in> set (subclasses c)" by auto
    then show ?thesis
      using subclasses_lower [of d c] class_height_le_max [of c cs] by linarith
  qed
  with pos show ?thesis by (simp add: max_height_less)
qed

text \<open>The \<open>while new_types\<close> loop of \<open>ant_types\<close>, over its two list variables.\<close>

function ant_types_loop :: "ant_class list \<Rightarrow> ant_class list \<Rightarrow> ant_class list" where
  "ant_types_loop new_types all_ant_types =
     (if new_types \<noteq> []
      then ant_types_loop (concat (map subclasses new_types))
             (all_ant_types @ concat (map subclasses new_types))
      else all_ant_types)"
  by pat_completeness auto
termination
  by (relation "measure (\<lambda>(new_types, all_ant_types). max_height new_types)")
     (auto simp: max_height_subclasses)

declare ant_types_loop.simps [simp del]

definition ant_types :: "ant_class list" where
  "ant_types = filter implemented (ant_types_loop [Ant] [])"

subsection \<open>ThrowerAnt\<close>

text \<open>
  \<open>random.choice\<close> draws an index; the draw is the parameter \<open>r\<close>, so that every element of
  a non-empty list is the result for some \<open>r\<close>.
\<close>

definition random_or_none :: "nat \<Rightarrow> 'a list \<Rightarrow> 'a option" where
  "random_or_none r l = (if l \<noteq> [] then Some (l ! (r mod length l)) else None)"

text \<open>
  The loop of \<open>nearest_bee\<close> over \<open>place\<close> and \<open>distance\<close>. When \<open>place\<close> is \<open>None\<close> it is not
  the hive, and reading \<open>place.bees\<close> or \<open>place.entrance\<close> raises.
\<close>

partial_function (option) nearest_bee_loop ::
  "world \<Rightarrow> ant_ref \<Rightarrow> place_ref \<Rightarrow> nat \<Rightarrow> place_ref option \<Rightarrow> nat \<Rightarrow> (error + bee_ref option) option" where
  "nearest_bee_loop s self hv r pl distance =
     (case pl of
        None \<Rightarrow> Some (Inl AttributeError)
      | Some p \<Rightarrow>
          if p = hv then Some (Inr None)
          else if min_range (cls (ant_heap s self)) \<le> distance
                  \<and> distance \<le> max_range (cls (ant_heap s self))
                  \<and> bees (place_heap s p) \<noteq> []
          then Some (Inr (random_or_none r (bees (place_heap s p))))
          else nearest_bee_loop s self hv r (entrance (place_heap s p)) (distance + 1))"

definition nearest_bee :: "world \<Rightarrow> ant_ref \<Rightarrow> place_ref \<Rightarrow> nat \<Rightarrow> (error + bee_ref option) option" where
  "nearest_bee s self hv r = nearest_bee_loop s self hv r (place (ant_heap s self)) 0"

text \<open>
  \<open>throw_at\<close>; \<open>SlowThrower\<close> and \<open>StunThrower\<close> override it with a call of \<open>apply_effect\<close>,
  whose body is empty.
\<close>

definition throw_at :: "ant_ref \<Rightarrow> bee_ref option \<Rightarrow> world \<Rightarrow> error + world" where
  "throw_at self target s =
     (if cls (ant_heap s self) = SlowThrower \<or> cls (ant_heap s self) = StunThrower then Inr s
      else case target of
             None \<Rightarrow> Inr s
           | Some b \<Rightarrow> reduce_armor (BeeRef b) (damage (ant_heap s self)) s)"

definition ThrowerAnt_action :: "ant_ref \<Rightarrow> nat \<Rightarrow> world \<Rightarrow> (error + world) option" where
  "ThrowerAnt_action self r s =
     (case nearest_bee s self (hive s) r of
        None \<Rightarrow> None
      | Some (Inl e) \<Rightarrow> Some (Inl e)
      | Some (Inr target) \<Rightarrow> Some (throw_at self target s))"

subsection \<open>QueenAnt\<close>

text \<open>One guarded block of \<open>double_damage\<close>: double \<open>x\<close> unless it is recorded or is the Queen.\<close>

definition double_unless_done :: "ant_ref \<Rightarrow> ant_ref \<Rightarrow> world \<Rightarrow> world" where
  "double_unless_done self x s =
     (if x \<notin> set (doubled_ants (ant_heap s self)) \<and> x \<noteq> self
      then upd_ant self (\<lambda>q. q\<lparr>doubled_ants := doubled_ants q @ [x]\<rparr>)
             (upd_ant x (\<lambda>y. y\<lparr>damage := damage y * 2\<rparr>) s)
      else s)"

definition double_damage :: "ant_ref \<Rightarrow> ant_ref \<Rightarrow> world \<Rightarrow> world" where
  "double_damage self a s =
     (let s1 = (if container (cls (ant_heap s a))
                then (case contained (ant_heap s a) of
                        None \<Rightarrow> s
                      | Some inner \<Rightarrow> double_unless_done self inner s)
                else s)
      in double_unless_done self a s1)"

text \<open>The first loop of \<open>QueenAnt.action\<close>: back along entrances, stopping before the hive.\<close>

partial_function (option) walk_back :: "world \<Rightarrow> place_ref \<Rightarrow> place_ref option" where
  "walk_back s current =
     (case entrance (place_heap s current) of
        None \<Rightarrow> Some current
      | Some e \<Rightarrow> if e = hive s then Some current else walk_back s e)"

text \<open>The second loop: forward along exits until \<open>current\<close> is \<open>None\<close>.\<close>

partial_function (option) walk_forward :: "ant_ref \<Rightarrow> place_ref option \<Rightarrow> world \<Rightarrow> world option" where
  "walk_forward self current s =
     (case current of
        None \<Rightarrow> Some s
      | Some c \<Rightarrow>
          (let s1 = (case ant (place_heap s c) of None \<Rightarrow> s | Some a \<Rightarrow> double_damage self a s)
           in walk_forward self (exit (place_heap s1 c)) s1))"

definition QueenAnt_action :: "ant_ref \<Rightarrow> nat \<Rightarrow> world \<Rightarrow> (error + world) option" where
  "QueenAnt_action self r s =
     (if instance_num (ant_heap s self) > 0
      then Some (reduce_armor (AntRef self) (armor (ant_heap s self)) s)
      else case place (ant_heap s self) of
             None \<Rightarrow> Some (Inl AttributeError)
           | Some p \<Rightarrow>
               (let s1 = (case queen s of
                            QueenIs q \<Rightarrow> s\<lparr>queen := QueenPlace q p\<rparr>
                          | QueenPlace cq aq \<Rightarrow> s)
                in case walk_back s1 p of
                     None \<Rightarrow> None
                   | Some first \<Rightarrow>
                       (case walk_forward self (Some first) s1 of
                          None \<Rightarrow> None
                        | Some s2 \<Rightarrow> ThrowerAnt_action self r s2)))"

subsection \<open>Bee.move_to\<close>

definition move_to :: "bee_ref \<Rightarrow> place_ref \<Rightarrow> world \<Rightarrow> error + world" where
  "move_to b target s =
     (case place (bee_heap s b) of
        None \<Rightarrow> Inl AttributeError
      | Some p \<Rightarrow>
          (case remove_insect p (BeeRef b) s of
             Inl e \<Rightarrow> Inl e
           | Inr s1 \<Rightarrow> add_insect target (BeeRef b) s1))"

subsection \<open>Bee.action\<close>



subsection \<open>Hive.strategy\<close>


subsection \<open>The actions of the ants\<close>

text \<open>\<open>NinjaAnt.action\<close>: every bee of a copy of the place's list is damaged.\<close>

definition NinjaAnt_action :: "ant_ref \<Rightarrow> world \<Rightarrow> error + world" where
  "NinjaAnt_action self s =
     (case place (ant_heap s self) of
        None \<Rightarrow> Inl AttributeError
      | Some p \<Rightarrow>
          for_each (\<lambda>b s1. reduce_armor (BeeRef b) (damage (ant_heap s1 self)) s1)
            (bees (place_heap s p)) s)"

text \<open>\<open>HungryAnt.action\<close> with \<open>eat_bee\<close>; \<open>time_to_digest\<close> is 3.\<close>

definition HungryAnt_action :: "ant_ref \<Rightarrow> nat \<Rightarrow> world \<Rightarrow> error + world" where
  "HungryAnt_action self r s =
     (if digesting (ant_heap s self) > 0
      then Inr (upd_ant self (\<lambda>x. x\<lparr>digesting := digesting x - 1\<rparr>) s)
      else (case place (ant_heap s self) of
              None \<Rightarrow> Inl AttributeError
            | Some p \<Rightarrow>
                (case random_or_none r (bees (place_heap s p)) of
                   None \<Rightarrow> Inr s
                 | Some b \<Rightarrow>
                     (case reduce_armor (BeeRef b) (armor (bee_heap s b)) s of
                        Inl e \<Rightarrow> Inl e
                      | Inr s1 \<Rightarrow> Inr (upd_ant self (\<lambda>x. x\<lparr>digesting := 3\<rparr>) s1)))))"

text \<open>
  \<open>ant.action(colony)\<close> by the class of the ant. A \<open>BodyguardAnt\<close> hands the call to the ant
  it hides; \<open>Ant\<close>, \<open>FireAnt\<close>, \<open>WallAnt\<close> and \<open>AntRemover\<close> inherit the empty action of
  \<open>Insect\<close>.
\<close>

partial_function (option) ant_action ::
  "(insect_ref \<Rightarrow> nat) \<Rightarrow> ant_ref \<Rightarrow> world \<Rightarrow> (error + world) option" where
  "ant_action rnd a s =
     (case cls (ant_heap s a) of
        HarvesterAnt \<Rightarrow> Some (Inr (s\<lparr>food := food s + 1\<rparr>))
      | ThrowerAnt \<Rightarrow> ThrowerAnt_action a (rnd (AntRef a)) s
      | LongThrower \<Rightarrow> ThrowerAnt_action a (rnd (AntRef a)) s
      | ShortThrower \<Rightarrow> ThrowerAnt_action a (rnd (AntRef a)) s
      | ScubaThrower \<Rightarrow> ThrowerAnt_action a (rnd (AntRef a)) s
      | SlowThrower \<Rightarrow> ThrowerAnt_action a (rnd (AntRef a)) s
      | StunThrower \<Rightarrow> ThrowerAnt_action a (rnd (AntRef a)) s
      | NinjaAnt \<Rightarrow> Some (NinjaAnt_action a s)
      | HungryAnt \<Rightarrow> Some (HungryAnt_action a (rnd (AntRef a)) s)
      | BodyguardAnt \<Rightarrow>
          (case contained (ant_heap s a) of
             None \<Rightarrow> Some (Inr s)
           | Some inner \<Rightarrow> ant_action rnd inner s)
      | QueenAnt \<Rightarrow> QueenAnt_action a (rnd (AntRef a)) s
      | Ant \<Rightarrow> Some (Inr s)
      | FireAnt \<Rightarrow> Some (Inr s)
      | WallAnt \<Rightarrow> Some (Inr s)
      | AntRemover \<Rightarrow> Some (Inr s))"

subsection \<open>simulate\<close>





subsection \<open>Starting a game\<close>

text \<open>
  The interpreter after the module is loaded: no object yet, \<open>number_of_queens = 0\<close>. The
  colony's attributes have no meaning before \<open>AntColony_init\<close> assigns them.
\<close>

definition empty_world :: world where
  "empty_world =
     \<lparr>place_heap = (\<lambda>_. \<lparr>place_class = PlaceC, name = [], exit = None, bees = [], ant = None,
                           entrance = None, hive_assault_plan = []\<rparr>),
      ant_heap = (\<lambda>_. \<lparr>armor = 0, place = None, cls = Ant, damage = 0, contained = None,
                         instance_num = 0, doubled_ants = [], digesting = 0\<rparr>),
      bee_heap = (\<lambda>_. \<lparr>armor = 0, place = None\<rparr>),
      next_place = 0, next_ant = 0, next_bee = 0, number_of_queens = 0, printed = [],
      time = 0, food = 0, hive = 0, colony_ant_types = [], queen = QueenIs 0, places = [],
      bee_entrances = []\<rparr>"

definition make_test_assault_plan :: "world \<Rightarrow> assault_plan \<times> world" where
  "make_test_assault_plan s = add_wave 3 1 (add_wave 2 1 (AssaultPlan 3, s))"

definition test_layout_multi_tunnels ::
  "place_ref \<Rightarrow> (place_ref \<Rightarrow> bool \<Rightarrow> world \<Rightarrow> world) \<Rightarrow> world \<Rightarrow> world" where
  "test_layout_multi_tunnels = mixed_layout 8 2 0"

text \<open>
  \<open>start_with_strategy\<close> up to the colony it builds (the call of \<open>simulate\<close> on it is the
  loop of the last subsection). The command-line flags choose the food and the layout, which are parameters
  here; the plan is the test plan of the default.
\<close>

definition start_with_strategy ::
  "(place_ref \<Rightarrow> (place_ref \<Rightarrow> bool \<Rightarrow> world \<Rightarrow> world) \<Rightarrow> world \<Rightarrow> world) \<Rightarrow> int \<Rightarrow> world \<Rightarrow> error + world" where
  "start_with_strategy layout fd s =
     (let (plan, s1) = make_test_assault_plan s in
      case Hive_init plan s1 of
        Inl e \<Rightarrow> Inl e
      | Inr (hv, s2) \<Rightarrow> AntColony_init hv ant_types layout fd s2)"

section \<open>Notions used in the statements\<close>

text \<open>What a call returns, for evaluating examples; \<open>d\<close> stands in when it raises.\<close>

definition returned :: "'a \<Rightarrow> error + 'a \<Rightarrow> 'a" where
  "returned d r = (case r of Inl e \<Rightarrow> d | Inr x \<Rightarrow> x)"

text \<open>No place's exit or entrance differs between two states.\<close>

definition same_links :: "world \<Rightarrow> world \<Rightarrow> bool" where
  "same_links s s' \<longleftrightarrow>
     (\<forall>p. exit (place_heap s' p) = exit (place_heap s p)
        \<and> entrance (place_heap s' p) = entrance (place_heap s p))"

text \<open>
  \<open>entrance_chain s hv cur ps\<close>: following entrances from \<open>cur\<close> visits the places \<open>ps\<close>, none
  of them the hive \<open>hv\<close>, and then arrives at the hive.
\<close>

fun entrance_chain :: "world \<Rightarrow> place_ref \<Rightarrow> place_ref option \<Rightarrow> place_ref list \<Rightarrow> bool" where
  "entrance_chain s hv cur [] \<longleftrightarrow> cur = Some hv"
| "entrance_chain s hv cur (x # xs) \<longleftrightarrow>
     cur = Some x \<and> x \<noteq> hv \<and> entrance_chain s hv (entrance (place_heap s x)) xs"







text \<open>The bees listed at a place are listed once and have that place as their \<open>place\<close>.\<close>

definition bees_at_home :: "world \<Rightarrow> place_ref \<Rightarrow> bool" where
  "bees_at_home s p \<longleftrightarrow>
     distinct (bees (place_heap s p)) \<and> (\<forall>b \<in> set (bees (place_heap s p)). place (bee_heap s b) = Some p)"

text \<open>
  The Queens constructed so far carry distinct numbers from 0 up to the class counter.
\<close>

definition queens_numbered :: "world \<Rightarrow> bool" where
  "queens_numbered s \<longleftrightarrow>
     0 \<le> number_of_queens s
     \<and> (\<forall>a < next_ant s. cls (ant_heap s a) = QueenAnt \<longrightarrow>
        0 \<le> instance_num (ant_heap s a) \<and> instance_num (ant_heap s a) < number_of_queens s)
     \<and> (\<forall>a < next_ant s. \<forall>b < next_ant s.
          cls (ant_heap s a) = QueenAnt \<and> cls (ant_heap s b) = QueenAnt
          \<and> instance_num (ant_heap s a) = instance_num (ant_heap s b) \<longrightarrow> a = b)"


section \<open>Example games\<close>

text \<open>
  The colony that \<open>start_with_strategy\<close> builds with the test layout (one tunnel of eight
  places) and two or ten food, and with the layout \<open>test_layout_multi_tunnels\<close>.
\<close>

definition test_game :: world where
  "test_game = returned empty_world (start_with_strategy test_layout 2 empty_world)"

definition ten_game :: world where
  "ten_game = returned empty_world (start_with_strategy test_layout 10 empty_world)"

definition multi_game :: world where
  "multi_game = returned empty_world (start_with_strategy test_layout_multi_tunnels 2 empty_world)"

text \<open>\<open>place.add_insect(c())\<close> for an ant class \<open>c\<close>, as a test or a strategy may call it.\<close>

definition put_ant :: "ant_class \<Rightarrow> place_ref \<Rightarrow> world \<Rightarrow> world" where
  "put_ant c p s = returned s (add_insect p (AntRef (fst (new_ant c s))) (snd (new_ant c s)))"

text \<open>A Thrower (ant 0) deployed in the first tunnel place (place 2) of the ten-food game.\<close>

definition thrower_game :: world where
  "thrower_game = returned ten_game (deploy_ant ''tunnel_0_0'' ''Thrower'' ten_game)"

text \<open>Then a Bodyguard (ant 1) deployed in the same place, which hides the Thrower.\<close>

definition guarded_game :: world where
  "guarded_game = returned thrower_game (deploy_ant ''tunnel_0_0'' ''Bodyguard'' thrower_game)"

text \<open>The first Queen (ant 0) in the first tunnel place of the test game.\<close>

definition queen_game :: world where
  "queen_game = put_ant QueenAnt 2 test_game"

text \<open>A second Queen (ant 1) in the next place (place 3).\<close>

definition impostor_game :: world where
  "impostor_game = put_ant QueenAnt 3 queen_game"

text \<open>A second Queen (ant 2) hidden in a Bodyguard (ant 1) in the next place.\<close>

definition guarded_impostor_game :: world where
  "guarded_impostor_game = put_ant QueenAnt 3 (put_ant BodyguardAnt 3 queen_game)"

text \<open>The Thrower's game after bee 0 has moved from the hive to the last tunnel place (place 9).\<close>

definition bee_game :: world where
  "bee_game = returned thrower_game (move_to 0 9 thrower_game)"

text \<open>
  The test game with a Thrower (ant 0) in place 2, a Harvester (ant 1) hidden in a Bodyguard
  (ant 2) in place 3, and the first Queen (ant 3) in place 4.
\<close>

definition royal_game :: world where
  "royal_game =
     put_ant QueenAnt 4 (put_ant BodyguardAnt 3 (put_ant HarvesterAnt 3 (put_ant ThrowerAnt 2 test_game)))"

section \<open>Frame lemmas\<close>

text \<open>What each update of the store leaves alone.\<close>

lemma upd_place_fields [simp]:
  "place_heap (upd_place p f s) = (place_heap s)(p := f (place_heap s p))"
  "ant_heap (upd_place p f s) = ant_heap s"
  "bee_heap (upd_place p f s) = bee_heap s"
  "next_place (upd_place p f s) = next_place s"
  "next_ant (upd_place p f s) = next_ant s"
  "next_bee (upd_place p f s) = next_bee s"
  "number_of_queens (upd_place p f s) = number_of_queens s"
  "printed (upd_place p f s) = printed s"
  "time (upd_place p f s) = time s"
  "food (upd_place p f s) = food s"
  "hive (upd_place p f s) = hive s"
  "colony_ant_types (upd_place p f s) = colony_ant_types s"
  "queen (upd_place p f s) = queen s"
  "places (upd_place p f s) = places s"
  "bee_entrances (upd_place p f s) = bee_entrances s"
  by (simp_all add: upd_place_def split: insect_ref.split)

lemma upd_ant_fields [simp]:
  "place_heap (upd_ant a f s) = place_heap s"
  "ant_heap (upd_ant a f s) = (ant_heap s)(a := f (ant_heap s a))"
  "bee_heap (upd_ant a f s) = bee_heap s"
  "next_place (upd_ant a f s) = next_place s"
  "next_ant (upd_ant a f s) = next_ant s"
  "next_bee (upd_ant a f s) = next_bee s"
  "number_of_queens (upd_ant a f s) = number_of_queens s"
  "printed (upd_ant a f s) = printed s"
  "time (upd_ant a f s) = time s"
  "food (upd_ant a f s) = food s"
  "hive (upd_ant a f s) = hive s"
  "colony_ant_types (upd_ant a f s) = colony_ant_types s"
  "queen (upd_ant a f s) = queen s"
  "places (upd_ant a f s) = places s"
  "bee_entrances (upd_ant a f s) = bee_entrances s"
  by (simp_all add: upd_ant_def split: insect_ref.split)

lemma upd_bee_fields [simp]:
  "place_heap (upd_bee b f s) = place_heap s"
  "ant_heap (upd_bee b f s) = ant_heap s"
  "bee_heap (upd_bee b f s) = (bee_heap s)(b := f (bee_heap s b))"
  "next_place (upd_bee b f s) = next_place s"
  "next_ant (upd_bee b f s) = next_ant s"
  "next_bee (upd_bee b f s) = next_bee s"
  "number_of_queens (upd_bee b f s) = number_of_queens s"
  "printed (upd_bee b f s) = printed s"
  "time (upd_bee b f s) = time s"
  "food (upd_bee b f s) = food s"
  "hive (upd_bee b f s) = hive s"
  "colony_ant_types (upd_bee b f s) = colony_ant_types s"
  "queen (upd_bee b f s) = queen s"
  "places (upd_bee b f s) = places s"
  "bee_entrances (upd_bee b f s) = bee_entrances s"
  by (simp_all add: upd_bee_def split: insect_ref.split)

lemma print_event_fields [simp]:
  "place_heap (print_event e s) = place_heap s"
  "ant_heap (print_event e s) = ant_heap s"
  "bee_heap (print_event e s) = bee_heap s"
  "next_place (print_event e s) = next_place s"
  "next_ant (print_event e s) = next_ant s"
  "next_bee (print_event e s) = next_bee s"
  "number_of_queens (print_event e s) = number_of_queens s"
  "printed (print_event e s) = printed s @ [e]"
  "time (print_event e s) = time s"
  "food (print_event e s) = food s"
  "hive (print_event e s) = hive s"
  "colony_ant_types (print_event e s) = colony_ant_types s"
  "queen (print_event e s) = queen s"
  "places (print_event e s) = places s"
  "bee_entrances (print_event e s) = bee_entrances s"
  by (simp_all add: print_event_def split: insect_ref.split)

lemma set_insect_place_fields [simp]:
  "place_heap (set_insect_place i p s) = place_heap s"
  "next_place (set_insect_place i p s) = next_place s"
  "next_ant (set_insect_place i p s) = next_ant s"
  "next_bee (set_insect_place i p s) = next_bee s"
  "number_of_queens (set_insect_place i p s) = number_of_queens s"
  "printed (set_insect_place i p s) = printed s"
  "time (set_insect_place i p s) = time s"
  "food (set_insect_place i p s) = food s"
  "hive (set_insect_place i p s) = hive s"
  "colony_ant_types (set_insect_place i p s) = colony_ant_types s"
  "queen (set_insect_place i p s) = queen s"
  "places (set_insect_place i p s) = places s"
  "bee_entrances (set_insect_place i p s) = bee_entrances s"
  by (simp_all add: set_insect_place_def split: insect_ref.split)

lemma sub_armor_fields [simp]:
  "place_heap (sub_armor i n s) = place_heap s"
  "next_place (sub_armor i n s) = next_place s"
  "next_ant (sub_armor i n s) = next_ant s"
  "next_bee (sub_armor i n s) = next_bee s"
  "number_of_queens (sub_armor i n s) = number_of_queens s"
  "printed (sub_armor i n s) = printed s"
  "time (sub_armor i n s) = time s"
  "food (sub_armor i n s) = food s"
  "hive (sub_armor i n s) = hive s"
  "colony_ant_types (sub_armor i n s) = colony_ant_types s"
  "queen (sub_armor i n s) = queen s"
  "places (sub_armor i n s) = places s"
  "bee_entrances (sub_armor i n s) = bee_entrances s"
  by (simp_all add: sub_armor_def split: insect_ref.split)

lemma set_insect_place_heaps [simp]:
  "ant_heap (set_insect_place (AntRef a) p s) = (ant_heap s)(a := (ant_heap s a)\<lparr>place := p\<rparr>)"
  "bee_heap (set_insect_place (AntRef a) p s) = bee_heap s"
  "ant_heap (set_insect_place (BeeRef b) p s) = ant_heap s"
  "bee_heap (set_insect_place (BeeRef b) p s) = (bee_heap s)(b := (bee_heap s b)\<lparr>place := p\<rparr>)"
  by (simp_all add: set_insect_place_def)

lemma sub_armor_heaps [simp]:
  "ant_heap (sub_armor (AntRef a) n s) = (ant_heap s)(a := (ant_heap s a)\<lparr>armor := armor (ant_heap s a) - n\<rparr>)"
  "bee_heap (sub_armor (AntRef a) n s) = bee_heap s"
  "ant_heap (sub_armor (BeeRef b) n s) = ant_heap s"
  "bee_heap (sub_armor (BeeRef b) n s) = (bee_heap s)(b := (bee_heap s b)\<lparr>armor := armor (bee_heap s b) - n\<rparr>)"
  by (simp_all add: sub_armor_def)

lemma same_links_refl [simp]: "same_links s s"
  by (simp add: same_links_def)

lemma same_links_trans: "same_links s t \<Longrightarrow> same_links t u \<Longrightarrow> same_links s u"
  by (simp add: same_links_def)

lemma same_links_heap: "(\<And>p. exit (place_heap s' p) = exit (place_heap s p)) \<Longrightarrow>
   (\<And>p. entrance (place_heap s' p) = entrance (place_heap s p)) \<Longrightarrow> same_links s s'"
  by (simp add: same_links_def)

lemma remove_insect_links: "remove_insect p i s = Inr s' \<Longrightarrow> same_links s s'"
  by (auto simp: remove_insect_def same_links_def split: insect_ref.splits if_splits)

lemma Place_add_insect_links: "Place_add_insect p i s = Inr s' \<Longrightarrow> same_links s s'"
  by (auto simp: Place_add_insect_def same_links_def split: insect_ref.splits if_splits option.splits)

lemma Insect_reduce_armor_links: "Insect_reduce_armor i n s = Inr s' \<Longrightarrow> same_links s s'"
  by (auto simp: Insect_reduce_armor_def Let_def same_links_def split: if_splits option.splits
      dest!: remove_insect_links)

lemma for_each_links:
  assumes "\<And>x s s'. body x s = Inr s' \<Longrightarrow> same_links s s'"
  shows "for_each body xs s = Inr s' \<Longrightarrow> same_links s s'"
proof (induction xs arbitrary: s)
  case Nil
  then show ?case by simp
next
  case (Cons x xs)
  then show ?case
    by (auto split: sum.splits intro: same_links_trans assms)
qed

lemma sub_armor_links [simp]: "same_links s (sub_armor i n s)"
  by (simp add: same_links_def)

lemma FireAnt_reduce_armor_links:
  assumes "FireAnt_reduce_armor a n s = Inr s'"
  shows "same_links s s'"
proof -
  let ?s1 = "sub_armor (AntRef a) n s"
  have s1: "same_links s ?s1" by simp
  show ?thesis
  proof (cases "armor (ant_heap ?s1 a) \<le> 0")
    case False
    with assms have "s' = ?s1" by (simp add: FireAnt_reduce_armor_def Let_def)
    with s1 show ?thesis by simp
  next
    case True
    with assms obtain p s2 where
      loop: "for_each (\<lambda>b. Insect_reduce_armor (BeeRef b) (damage (ant_heap ?s1 a)))
               (bees (place_heap ?s1 p)) ?s1 = Inr s2"
      and rem: "remove_insect p (AntRef a) s2 = Inr s'"
      by (auto simp: FireAnt_reduce_armor_def Let_def split: option.splits sum.splits)
    from loop have "same_links ?s1 s2"
      by (rule for_each_links [rotated]) (rule Insect_reduce_armor_links)
    with s1 remove_insect_links [OF rem] show ?thesis
      by (blast intro: same_links_trans)
  qed
qed

lemma reduce_armor_links: "reduce_armor i n s = Inr s' \<Longrightarrow> same_links s s'"
  by (auto simp: reduce_armor_def split: insect_ref.splits if_splits
      dest: FireAnt_reduce_armor_links Insect_reduce_armor_links)

lemma print_event_links [simp]: "same_links s (print_event e s)"
  by (simp add: same_links_def)

lemma Water_add_insect_links:
  assumes "Water_add_insect p i s = Inr s'"
  shows "same_links s s'"
proof -
  from assms obtain s1 where
    add: "Place_add_insect p i (print_event (Added i (insect_watersafe s i)) s) = Inr s1"
    and rest: "s' = s1 \<or> reduce_armor i (insect_armor s1 i) s1 = Inr s'"
    by (auto simp: Water_add_insect_def split: sum.splits if_splits)
  have "same_links s s1"
    using Place_add_insect_links [OF add] print_event_links same_links_trans by blast
  with rest show ?thesis
    using reduce_armor_links same_links_trans by blast
qed

lemma add_insect_links: "add_insect p i s = Inr s' \<Longrightarrow> same_links s s'"
  by (auto simp: add_insect_def split: if_splits
      dest: Water_add_insect_links Place_add_insect_links)

lemma new_ant_links [simp]: "same_links s (snd (new_ant c s))"
  by (simp add: new_ant_def Let_def same_links_def)

lemma deploy_ant_links:
  assumes "deploy_ant pn an s = Inr s'"
  shows "same_links s s'"
proof -
  from assms obtain c where c: "map_of (colony_ant_types s) an = Some c"
    by (auto simp: deploy_ant_def split: option.splits)
  show ?thesis
  proof (cases "food s < food_cost c")
    case True
    with assms c show ?thesis by (auto simp: deploy_ant_def)
  next
    case False
    with assms c obtain p s2 where
      add: "add_insect p (AntRef (fst (new_ant c s))) (snd (new_ant c s)) = Inr s2"
      and s': "s' = s2\<lparr>food := food s2 - food_cost c\<rparr>"
      by (auto simp: deploy_ant_def split_beta split: option.splits sum.splits)
    have "same_links s s2"
      using add_insect_links [OF add] new_ant_links same_links_trans by blast
    with s' show ?thesis by (simp add: same_links_def)
  qed
qed

lemma remove_ant_links: "remove_ant pn s = Inr s' \<Longrightarrow> same_links s s'"
  by (auto simp: remove_ant_def split: option.splits dest: remove_insect_links)

section \<open>Evaluating the examples\<close>

text \<open>The defining equations that compute a closed example with the simplifier.\<close>

lemmas eval_defs = returned_def Hive_init_def add_wave_def AssaultPlan_def empty_world_def
  new_bee_def all_bees_def add_insect_def Place_add_insect_def Water_add_insect_def
  set_insect_place_def upd_place_def upd_bee_def
  upd_ant_def configure_def mixed_layout_def Place_init_def register_place_def Let_def split_beta
  str_nat.simps start_with_strategy_def make_test_assault_plan_def test_layout_def
  test_layout_multi_tunnels_def dry_layout_def
  AntColony_init_def ant_types_def ant_types_loop.simps deploy_ant_def new_ant_def can_contain_def
  print_event_def remove_insect_def remove_ant_def Insect_reduce_armor_def FireAnt_reduce_armor_def
  reduce_armor_def sub_armor_def insect_armor_def insect_place_def insect_watersafe_def
  move_to_def colony_bees_def colony_ants_def queen_bees_def upt_rec
  test_game_def ten_game_def multi_game_def put_ant_def thrower_game_def guarded_game_def
  queen_game_def impostor_game_def guarded_impostor_game_def bee_game_def royal_game_def

lemma returned_Inr: "(case r of Inl e \<Rightarrow> False | Inr x \<Rightarrow> True) \<Longrightarrow> r = Inr (returned d r)"
  by (cases r) (simp_all add: returned_def)


lemma ten_game_started: "start_with_strategy test_layout 10 empty_world = Inr ten_game"
  unfolding ten_game_def by (rule returned_Inr) (simp add: eval_defs)

lemma start_with_strategy_colony:
  assumes "start_with_strategy layout fd s = Inr s'"
  shows "\<exists>hv s2. AntColony_init hv ant_types layout fd s2 = Inr s'"
  using assms
  by (auto simp: start_with_strategy_def Let_def split_beta split: sum.splits)



section \<open>The registry of ant types and the Queen\<close>

lemma ant_types_value:
  "ant_types = [HarvesterAnt, ThrowerAnt, FireAnt, WallAnt, NinjaAnt, BodyguardAnt, AntRemover,
     LongThrower, ShortThrower, ScubaThrower]"
  by (simp add: ant_types_def ant_types_loop.simps)

lemma name_dict_ant_types:
  "name_dict ant_types [] =
     Inr [(''Harvester'', HarvesterAnt), (''Thrower'', ThrowerAnt), (''Fire'', FireAnt),
          (''Wall'', WallAnt), (''Ninja'', NinjaAnt), (''Bodyguard'', BodyguardAnt),
          (''Remover'', AntRemover), (''Long'', LongThrower), (''Short'', ShortThrower),
          (''Scuba'', ScubaThrower)]"
  by (simp add: ant_types_value)

lemma Place_init_types: "colony_ant_types (snd (Place_init c nm ex s)) = colony_ant_types s"
  by (simp add: Place_init_def Let_def split: option.split)

lemma register_place_types: "colony_ant_types (register_place hv p b s) = colony_ant_types s"
  by (simp add: register_place_def Let_def)

lemma tunnel_steps_types:
  "colony_ant_types (tunnel_steps (register_place hv) len moat t steps ex s) = colony_ant_types s"
proof (induction steps arbitrary: ex s)
  case Nil
  then show ?case by simp
next
  case (Cons step steps)
  show ?case
    by (simp add: Let_def split_beta Cons.IH register_place_types Place_init_types)
qed

lemma mixed_layout_types:
  "colony_ant_types (mixed_layout len tunnels moat q (register_place hv) s) = colony_ant_types s"
proof -
  have "colony_ant_types (fold (\<lambda>tunnel. tunnel_steps (register_place hv) len moat tunnel
          [0..<nat len] q) ts s) = colony_ant_types s" for ts
    by (induction ts arbitrary: s) (simp_all add: tunnel_steps_types)
  then show ?thesis by (simp add: mixed_layout_def)
qed

lemma configure_mixed_types:
  "colony_ant_types (configure hv (mixed_layout len tunnels moat) s) = colony_ant_types s"
  by (simp add: configure_def Let_def split_beta mixed_layout_types register_place_types
      Place_init_types)

text \<open>
  Claim C10. \<open>QueenAnt\<close> is marked not implemented, so \<open>ant_types\<close> leaves it out; in every
  colony constructed from that list (with any of the layouts, which are all calls of
  \<open>mixed_layout\<close>), and in every later state, which has the same registry, \<open>deploy_ant\<close> with
  the name \<open>Queen\<close> raises \<open>KeyError\<close>, whatever the place name and the food.
\<close>

theorem queen_never_deployable:
  assumes "AntColony_init hv ant_types (mixed_layout len tunnels moat_frequency) fd s0 = Inr s"
    and "colony_ant_types s' = colony_ant_types s"
  shows "\<not> implemented QueenAnt \<and> QueenAnt \<notin> set ant_types
         \<and> deploy_ant place_name ''Queen'' s' = Inl KeyError"
proof -
  from assms(1) have "colony_ant_types s =
     [(''Harvester'', HarvesterAnt), (''Thrower'', ThrowerAnt), (''Fire'', FireAnt),
      (''Wall'', WallAnt), (''Ninja'', NinjaAnt), (''Bodyguard'', BodyguardAnt),
      (''Remover'', AntRemover), (''Long'', LongThrower), (''Short'', ShortThrower),
      (''Scuba'', ScubaThrower)]"
    by (auto simp: AntColony_init_def name_dict_ant_types configure_mixed_types)
  with assms(2) have "map_of (colony_ant_types s') ''Queen'' = None"
    by simp
  then have "deploy_ant place_name ''Queen'' s' = Inl KeyError"
    by (simp add: deploy_ant_def)
  then show ?thesis by (simp add: ant_types_value)
qed

theorem queen_never_deployable_witness:
  "\<not> implemented QueenAnt \<and> QueenAnt \<notin> set ant_types
   \<and> deploy_ant ''tunnel_0_0'' ''Queen'' ten_game = Inl KeyError"
proof -
  from start_with_strategy_colony [OF ten_game_started] obtain hv s2
    where "AntColony_init hv ant_types (mixed_layout 8 1 0) 10 s2 = Inr ten_game"
    unfolding test_layout_def by blast
  from queen_never_deployable [OF this refl, of "''tunnel_0_0''"] show ?thesis .
qed

section \<open>Running out of armor\<close>

lemma Insect_reduce_armor_bee_at_home:
  assumes "place (bee_heap s b) = Some p" and "b \<in> set (bees (place_heap s p))"
  shows "\<exists>s'. Insect_reduce_armor (BeeRef b) n s = Inr s'
           \<and> ant_heap s' = ant_heap s
           \<and> (\<forall>q. ant (place_heap s' q) = ant (place_heap s q))
           \<and> (\<forall>x. x \<noteq> b \<longrightarrow> bee_heap s' x = bee_heap s x)
           \<and> (\<forall>x \<in> set (bees (place_heap s p)). x \<noteq> b \<longrightarrow> x \<in> set (bees (place_heap s' p)))"
  using assms
  by (auto simp: Insect_reduce_armor_def Let_def insect_armor_def insect_place_def
      remove_insect_def in_set_remove1)

lemma fire_loop_at_home:
  assumes "distinct xs" and "set xs \<subseteq> set (bees (place_heap s p))"
    and "\<forall>b \<in> set xs. place (bee_heap s b) = Some p"
  shows "\<exists>s'. for_each (\<lambda>b. Insect_reduce_armor (BeeRef b) d) xs s = Inr s'
           \<and> ant_heap s' = ant_heap s
           \<and> (\<forall>q. ant (place_heap s' q) = ant (place_heap s q))"
  using assms
proof (induction xs arbitrary: s)
  case Nil
  then show ?case by simp
next
  case (Cons b xs)
  from Cons.prems have home: "place (bee_heap s b) = Some p" "b \<in> set (bees (place_heap s p))"
    by auto
  from Insect_reduce_armor_bee_at_home [OF home, of d] obtain s1 where
    s1: "Insect_reduce_armor (BeeRef b) d s = Inr s1"
    and ants: "ant_heap s1 = ant_heap s" "\<forall>q. ant (place_heap s1 q) = ant (place_heap s q)"
    and others: "\<forall>x. x \<noteq> b \<longrightarrow> bee_heap s1 x = bee_heap s x"
    and rest: "\<forall>x \<in> set (bees (place_heap s p)). x \<noteq> b \<longrightarrow> x \<in> set (bees (place_heap s1 p))"
    by blast
  from Cons.prems have "distinct xs" "b \<notin> set xs" by auto
  moreover from Cons.prems rest \<open>b \<notin> set xs\<close> have "set xs \<subseteq> set (bees (place_heap s1 p))"
    by auto
  moreover from Cons.prems others \<open>b \<notin> set xs\<close>
  have "\<forall>x \<in> set xs. place (bee_heap s1 x) = Some p"
    by auto
  ultimately obtain s' where
    "for_each (\<lambda>b. Insect_reduce_armor (BeeRef b) d) xs s1 = Inr s'"
    "ant_heap s' = ant_heap s1" "\<forall>q. ant (place_heap s' q) = ant (place_heap s1 q)"
    using Cons.IH [of s1] by blast
  with s1 ants show ?case by simp
qed

lemma remove_insect_slot_occupant:
  assumes "ant (place_heap s p) = Some a"
    and "\<not> (cls (ant_heap s a) = QueenAnt \<and> instance_num (ant_heap s a) = 0)"
  shows "\<exists>s'. remove_insect p (AntRef a) s = Inr s'
           \<and> ant (place_heap s' p)
               = (if container (cls (ant_heap s a)) \<and> contained (ant_heap s a) \<noteq> None
                  then contained (ant_heap s a) else None)
           \<and> place (ant_heap s' a) = None
           \<and> armor (ant_heap s' a) = armor (ant_heap s a)"
  using assms by (auto simp: remove_insect_def)

lemma remove_insect_first_queen:
  assumes "ant (place_heap s p) = Some a"
    and "cls (ant_heap s a) = QueenAnt \<and> instance_num (ant_heap s a) = 0"
  shows "remove_insect p (AntRef a) s = Inr s"
  using assms by (simp add: remove_insect_def)

text \<open>
  Claim C1, as the code has it. Let an ant occupy the ant slot of its place, and let
  \<open>reduce_armor\<close> bring its armor to zero or below. (For a \<open>FireAnt\<close>, which first damages
  the bees of its place, let those bees be listed once and have that place as theirs.) Then
  the call returns with the armor reduced. If the ant is the first \<open>QueenAnt\<close>, she still
  occupies the slot and her \<open>place\<close> is unchanged. Otherwise the ant's \<open>place\<close> is \<open>None\<close>, and
  the slot holds the ant that it contained, if it is a container that held one, and nothing
  otherwise: so the ant is out of the slot unless it contained itself.
\<close>

theorem reduce_armor_removes_slot_occupant:
  assumes "place (ant_heap s a) = Some p"
    and "ant (place_heap s p) = Some a"
    and "armor (ant_heap s a) - amount \<le> 0"
    and "cls (ant_heap s a) = FireAnt \<longrightarrow> bees_at_home s p"
  shows "\<exists>s'. reduce_armor (AntRef a) amount s = Inr s'
           \<and> armor (ant_heap s' a) = armor (ant_heap s a) - amount
           \<and> (if cls (ant_heap s a) = QueenAnt \<and> instance_num (ant_heap s a) = 0
               then place (ant_heap s' a) = Some p \<and> ant (place_heap s' p) = Some a
               else place (ant_heap s' a) = None
                    \<and> ant (place_heap s' p)
                        = (if container (cls (ant_heap s a)) \<and> contained (ant_heap s a) \<noteq> None
                           then contained (ant_heap s a) else None)
                    \<and> (contained (ant_heap s a) \<noteq> Some a \<longrightarrow> ant (place_heap s' p) \<noteq> Some a))"
proof -
  let ?s1 = "sub_armor (AntRef a) amount s"
  have s1: "armor (ant_heap ?s1 a) = armor (ant_heap s a) - amount"
    "place (ant_heap ?s1 a) = Some p" "cls (ant_heap ?s1 a) = cls (ant_heap s a)"
    "contained (ant_heap ?s1 a) = contained (ant_heap s a)"
    "instance_num (ant_heap ?s1 a) = instance_num (ant_heap s a)"
    "place_heap ?s1 = place_heap s" "bee_heap ?s1 = bee_heap s"
    "damage (ant_heap ?s1 a) = damage (ant_heap s a)"
    using assms(1) by simp_all
  show ?thesis
  proof (cases "cls (ant_heap s a) = QueenAnt \<and> instance_num (ant_heap s a) = 0")
    case True
    let ?s2 = "print_event (Expired (AntRef a)) ?s1"
    have "ant (place_heap ?s2 p) = Some a"
      "cls (ant_heap ?s2 a) = QueenAnt \<and> instance_num (ant_heap ?s2 a) = 0"
      using assms(2) True s1 by simp_all
    from remove_insect_first_queen [OF this]
    have "remove_insect p (AntRef a) ?s2 = Inr ?s2" .
    with True assms(2,3) s1 have "reduce_armor (AntRef a) amount s = Inr ?s2"
      by (simp add: reduce_armor_def Insect_reduce_armor_def Let_def insect_armor_def
          insect_place_def)
    moreover have "armor (ant_heap ?s2 a) = armor (ant_heap s a) - amount"
      "place (ant_heap ?s2 a) = Some p" "ant (place_heap ?s2 p) = Some a"
      using assms(2) s1 by simp_all
    ultimately show ?thesis using True by simp
  next
    case notq: False
    show ?thesis
    proof (cases "cls (ant_heap s a) = FireAnt")
      case False
      let ?s2 = "print_event (Expired (AntRef a)) ?s1"
      have "ant (place_heap ?s2 p) = Some a"
        "\<not> (cls (ant_heap ?s2 a) = QueenAnt \<and> instance_num (ant_heap ?s2 a) = 0)"
        using assms(2) notq s1 by simp_all
      from remove_insect_slot_occupant [OF this] obtain s' where
        "remove_insect p (AntRef a) ?s2 = Inr s'"
        "ant (place_heap s' p)
           = (if container (cls (ant_heap ?s2 a)) \<and> contained (ant_heap ?s2 a) \<noteq> None
              then contained (ant_heap ?s2 a) else None)"
        "place (ant_heap s' a) = None" "armor (ant_heap s' a) = armor (ant_heap ?s2 a)"
        by blast
      with False notq assms(3) s1 show ?thesis
        by (auto simp: reduce_armor_def Insect_reduce_armor_def Let_def insect_armor_def
            insect_place_def)
    next
      case True
      with assms(4) have home: "distinct (bees (place_heap ?s1 p))"
        "set (bees (place_heap ?s1 p)) \<subseteq> set (bees (place_heap ?s1 p))"
        "\<forall>b \<in> set (bees (place_heap ?s1 p)). place (bee_heap ?s1 b) = Some p"
        using s1 by (auto simp: bees_at_home_def)
      from fire_loop_at_home [OF home, of "damage (ant_heap ?s1 a)"] obtain s2 where
        loop: "for_each (\<lambda>b. Insect_reduce_armor (BeeRef b) (damage (ant_heap ?s1 a)))
                 (bees (place_heap ?s1 p)) ?s1 = Inr s2"
        and same: "ant_heap s2 = ant_heap ?s1" "\<forall>q. ant (place_heap s2 q) = ant (place_heap ?s1 q)"
        by blast
      have "ant (place_heap s2 p) = Some a"
        "\<not> (cls (ant_heap s2 a) = QueenAnt \<and> instance_num (ant_heap s2 a) = 0)"
        using assms(2) True same s1 by simp_all
      from remove_insect_slot_occupant [OF this] obtain s' where
        "remove_insect p (AntRef a) s2 = Inr s'"
        "ant (place_heap s' p)
           = (if container (cls (ant_heap s2 a)) \<and> contained (ant_heap s2 a) \<noteq> None
              then contained (ant_heap s2 a) else None)"
        "place (ant_heap s' a) = None" "armor (ant_heap s' a) = armor (ant_heap s2 a)"
        by blast
      with True assms(3) s1 loop same show ?thesis
        by (auto simp: reduce_armor_def FireAnt_reduce_armor_def Let_def)
    qed
  qed
qed

lemma thrower_game_facts:
  "place (ant_heap thrower_game 0) = Some 2" "ant (place_heap thrower_game 2) = Some 0"
  "cls (ant_heap thrower_game 0) = ThrowerAnt" "armor (ant_heap thrower_game 0) = 1"
  "contained (ant_heap thrower_game 0) = None"
  by (simp_all add: eval_defs)

lemma queen_game_facts:
  "place (ant_heap queen_game 0) = Some 2" "ant (place_heap queen_game 2) = Some 0"
  "cls (ant_heap queen_game 0) = QueenAnt" "armor (ant_heap queen_game 0) = 1"
  "instance_num (ant_heap queen_game 0) = 0"
  by (simp_all add: eval_defs)

theorem reduce_armor_removes_slot_occupant_witness:
  "(\<exists>s'. reduce_armor (AntRef 0) 1 thrower_game = Inr s'
      \<and> armor (ant_heap s' 0) = 0 \<and> place (ant_heap s' 0) = None
      \<and> ant (place_heap s' 2) = None)
   \<and> (\<exists>s'. reduce_armor (AntRef 0) 1 queen_game = Inr s'
      \<and> armor (ant_heap s' 0) = 0 \<and> place (ant_heap s' 0) = Some 2
      \<and> ant (place_heap s' 2) = Some 0)"
  using reduce_armor_removes_slot_occupant [of thrower_game 0 2 1] thrower_game_facts
    reduce_armor_removes_slot_occupant [of queen_game 0 2 1] queen_game_facts
  by auto

text \<open>
  The claim as stated fails for the first Queen, whom \<open>remove_insect\<close> leaves where she is:
  the Queen of \<open>queen_game\<close> loses her last armor and still occupies her place.
\<close>

theorem reduce_armor_first_queen_stays:
  "(case reduce_armor (AntRef 0) 1 queen_game of
      Inl e \<Rightarrow> False
    | Inr s' \<Rightarrow> armor (ant_heap s' 0) \<le> 0 \<and> ant (place_heap s' 2) = Some 0
                \<and> place (ant_heap s' 0) = Some 2)"
  by (simp add: eval_defs)

section \<open>Deploying without enough food\<close>

lemma test_game_Thrower: "map_of (colony_ant_types test_game) ''Thrower'' = Some ThrowerAnt"
  by (simp add: test_game_def eval_defs)

lemma test_game_food: "food test_game = 2"
  by (simp add: test_game_def eval_defs)

text \<open>
  Claim C3, as the code has it. When the food is less than the cost of the ant type named,
  \<open>deploy_ant\<close> prints \<open>Not enough food remains to place\<close> with the name and returns: no
  exception is raised, and nothing but the printed output differs afterwards, so the food,
  every place's occupants and every ant are as before. No ant is constructed and the place
  name is not looked up.
\<close>

theorem deploy_ant_not_enough_food:
  assumes "map_of (colony_ant_types s) ant_type_name = Some constructor"
    and "food s < food_cost constructor"
  shows "deploy_ant place_name ant_type_name s = Inr (s\<lparr>printed := printed s @ [NotEnoughFood ant_type_name]\<rparr>)"
  using assms by (simp add: deploy_ant_def print_event_def)

theorem deploy_ant_not_enough_food_witness:
  "deploy_ant ''tunnel_0_0'' ''Thrower'' test_game
     = Inr (test_game\<lparr>printed := printed test_game @ [NotEnoughFood ''Thrower'']\<rparr>)"
  using deploy_ant_not_enough_food [OF test_game_Thrower, of "''tunnel_0_0''"] test_game_food
  by simp

text \<open>
  The claim as stated asks for an error: in the test game (two food, a Thrower costs four)
  the call returns normally.
\<close>

theorem deploy_ant_no_error_raised:
  "food test_game < food_cost ThrowerAnt
   \<and> (case deploy_ant ''tunnel_0_0'' ''Thrower'' test_game of
        Inl e \<Rightarrow> False
      | Inr s' \<Rightarrow> printed s' = [NotEnoughFood ''Thrower''] \<and> food s' = 2)"
  by (simp add: test_game_def eval_defs)

section \<open>Removing what is not there\<close>

lemma test_game_tunnel: "map_of (places test_game) ''tunnel_0_0'' = Some 2"
  by (simp add: test_game_def eval_defs)

lemma test_game_slot: "ant (place_heap test_game 2) = None"
  by (simp add: test_game_def eval_defs)

lemma test_game_bees: "bees (place_heap test_game 2) = []"
  by (simp add: test_game_def eval_defs)

text \<open>
  Claim C4, as the code has it. \<open>remove_ant\<close> on a place whose ant slot is empty returns
  without an error and changes nothing. \<open>remove_insect\<close> of an ant that is not the slot's
  occupant fails the assertion (\<open>AssertionError\<close>), and of a bee that is not in the place's
  list raises \<open>ValueError\<close> from \<open>list.remove\<close>.
\<close>

theorem removal_of_absent:
  "(map_of (places s) place_name = Some p \<and> ant (place_heap s p) = None
      \<longrightarrow> remove_ant place_name s = Inr s)
   \<and> (ant (place_heap s p) \<noteq> Some a \<longrightarrow> remove_insect p (AntRef a) s = Inl AssertionError)
   \<and> (b \<notin> set (bees (place_heap s p)) \<longrightarrow> remove_insect p (BeeRef b) s = Inl ValueError)"
  by (simp add: remove_ant_def remove_insect_def)

theorem removal_of_absent_witness:
  "remove_ant ''tunnel_0_0'' test_game = Inr test_game
   \<and> remove_insect 2 (AntRef 0) test_game = Inl AssertionError
   \<and> remove_insect 2 (BeeRef 0) test_game = Inl ValueError"
  using removal_of_absent [of test_game "''tunnel_0_0''" 2 0 0]
    test_game_tunnel test_game_slot test_game_bees
  by simp

text \<open>
  The claim as stated asks for an error when the place is unoccupied: in the test game
  the first tunnel place holds no ant and \<open>remove_ant\<close> on it returns normally.
\<close>

theorem remove_ant_unoccupied_no_error:
  "ant (place_heap test_game 2) = None
   \<and> (case remove_ant ''tunnel_0_0'' test_game of Inl e \<Rightarrow> False | Inr s' \<Rightarrow> True)"
  by (simp add: test_game_def eval_defs)

section \<open>The range of a Thrower\<close>

lemma random_or_none_member: "l \<noteq> [] \<Longrightarrow> \<exists>b \<in> set l. random_or_none r l = Some b"
  by (simp add: random_or_none_def)

lemma nearest_bee_loop_chain:
  assumes "entrance_chain s hv cur ps"
  shows "\<exists>target. nearest_bee_loop s self hv r cur d = Some (Inr target)
           \<and> (case target of
                 None \<Rightarrow>
                   (\<forall>i < length ps.
                      min_range (cls (ant_heap s self)) \<le> d + i
                      \<and> d + i \<le> max_range (cls (ant_heap s self))
                      \<longrightarrow> bees (place_heap s (ps ! i)) = [])
               | Some b \<Rightarrow>
                   (\<exists>i < length ps.
                      min_range (cls (ant_heap s self)) \<le> d + i
                      \<and> d + i \<le> max_range (cls (ant_heap s self))
                      \<and> b \<in> set (bees (place_heap s (ps ! i)))
                      \<and> (\<forall>j < i. min_range (cls (ant_heap s self)) \<le> d + j
                                   \<and> d + j \<le> max_range (cls (ant_heap s self))
                                   \<longrightarrow> bees (place_heap s (ps ! j)) = [])))"
  using assms
proof (induction ps arbitrary: cur d)
  case Nil
  then show ?case
    by (subst nearest_bee_loop.simps) simp
next
  case (Cons x xs)
  let ?lo = "min_range (cls (ant_heap s self))"
  let ?hi = "max_range (cls (ant_heap s self))"
  from Cons.prems have cur: "cur = Some x" "x \<noteq> hv"
    and rest: "entrance_chain s hv (entrance (place_heap s x)) xs"
    by simp_all
  show ?case
  proof (cases "?lo \<le> d \<and> d \<le> ?hi \<and> bees (place_heap s x) \<noteq> []")
    case True
    then obtain b where b: "b \<in> set (bees (place_heap s x))"
      "random_or_none r (bees (place_heap s x)) = Some b"
      using random_or_none_member by blast
    from True cur b have "nearest_bee_loop s self hv r cur d = Some (Inr (Some b))"
      by (subst nearest_bee_loop.simps) simp
    moreover have "\<exists>i < length (x # xs). ?lo \<le> d + i \<and> d + i \<le> ?hi
        \<and> b \<in> set (bees (place_heap s ((x # xs) ! i)))
        \<and> (\<forall>j < i. ?lo \<le> d + j \<and> d + j \<le> ?hi \<longrightarrow> bees (place_heap s ((x # xs) ! j)) = [])"
      using True b by (intro exI [of _ 0]) simp
    ultimately show ?thesis by simp
  next
    case False
    with cur have step: "nearest_bee_loop s self hv r cur d
        = nearest_bee_loop s self hv r (entrance (place_heap s x)) (d + 1)"
      by (subst nearest_bee_loop.simps) auto
    from Cons.IH [OF rest, of "d + 1"] obtain target where
      ret: "nearest_bee_loop s self hv r (entrance (place_heap s x)) (d + 1) = Some (Inr target)"
      and char: "case target of
                 None \<Rightarrow>
                   (\<forall>i < length xs. ?lo \<le> d + 1 + i \<and> d + 1 + i \<le> ?hi
                      \<longrightarrow> bees (place_heap s (xs ! i)) = [])
               | Some b \<Rightarrow>
                   (\<exists>i < length xs. ?lo \<le> d + 1 + i \<and> d + 1 + i \<le> ?hi
                      \<and> b \<in> set (bees (place_heap s (xs ! i)))
                      \<and> (\<forall>j < i. ?lo \<le> d + 1 + j \<and> d + 1 + j \<le> ?hi
                                   \<longrightarrow> bees (place_heap s (xs ! j)) = []))"
      by blast
    have first: "?lo \<le> d + j \<and> d + j \<le> ?hi \<longrightarrow> bees (place_heap s ((x # xs) ! j)) = []"
      if "j = 0" for j
      using False that by auto
    show ?thesis
    proof (cases target)
      case None
      have "?lo \<le> d + i \<and> d + i \<le> ?hi \<longrightarrow> bees (place_heap s ((x # xs) ! i)) = []"
        if "i < length (x # xs)" for i
      proof (cases i)
        case 0
        then show ?thesis using first by blast
      next
        case (Suc k)
        with that char None show ?thesis by auto
      qed
      with step ret None show ?thesis by simp
    next
      case (Some b)
      with char obtain i where i: "i < length xs" "?lo \<le> d + 1 + i" "d + 1 + i \<le> ?hi"
        "b \<in> set (bees (place_heap s (xs ! i)))"
        "\<forall>j < i. ?lo \<le> d + 1 + j \<and> d + 1 + j \<le> ?hi \<longrightarrow> bees (place_heap s (xs ! j)) = []"
        by auto
      have before: "?lo \<le> d + j \<and> d + j \<le> ?hi \<longrightarrow> bees (place_heap s ((x # xs) ! j)) = []"
        if "j < Suc i" for j
      proof (cases j)
        case 0
        then show ?thesis using first by blast
      next
        case (Suc k)
        with that i(5) show ?thesis by auto
      qed
      have "\<exists>i < length (x # xs). ?lo \<le> d + i \<and> d + i \<le> ?hi
          \<and> b \<in> set (bees (place_heap s ((x # xs) ! i)))
          \<and> (\<forall>j < i. ?lo \<le> d + j \<and> d + j \<le> ?hi
                \<longrightarrow> bees (place_heap s ((x # xs) ! j)) = [])"
        using i(1-4) before by (intro exI [of _ "Suc i"]) auto
      with step ret Some show ?thesis by simp
    qed
  qed
qed

text \<open>
  Claim C7. Let the entrances lead from the Thrower's place through the places \<open>ps\<close> to the
  hive (\<open>ps ! i\<close> is the place \<open>i\<close> steps back, \<open>ps ! 0\<close> the Thrower's own). Then \<open>nearest_bee\<close>
  returns, whatever the random draw \<open>r\<close>. A bee it returns is at a place \<open>i\<close> steps back with
  \<open>min_range \<le> i \<le> max_range\<close>, so at most 2 steps back for a \<open>ShortThrower\<close> and at least 4
  for a \<open>LongThrower\<close>, and no place nearer and in range has a bee. It returns \<open>None\<close> exactly
  when no place in range before the hive has a bee.
\<close>

theorem nearest_bee_in_range:
  assumes "entrance_chain s hv (place (ant_heap s self)) ps"
  shows "\<exists>target. nearest_bee s self hv r = Some (Inr target)
           \<and> (case target of
                 None \<Rightarrow>
                   (\<forall>i < length ps.
                      min_range (cls (ant_heap s self)) \<le> i \<and> i \<le> max_range (cls (ant_heap s self))
                      \<longrightarrow> bees (place_heap s (ps ! i)) = [])
               | Some b \<Rightarrow>
                   (\<exists>i < length ps.
                      min_range (cls (ant_heap s self)) \<le> i \<and> i \<le> max_range (cls (ant_heap s self))
                      \<and> (cls (ant_heap s self) = ShortThrower \<longrightarrow> i \<le> 2)
                      \<and> (cls (ant_heap s self) = LongThrower \<longrightarrow> 4 \<le> i)
                      \<and> b \<in> set (bees (place_heap s (ps ! i)))
                      \<and> (\<forall>j < i. min_range (cls (ant_heap s self)) \<le> j
                                   \<and> j \<le> max_range (cls (ant_heap s self))
                                   \<longrightarrow> bees (place_heap s (ps ! j)) = [])))"
proof -
  let ?lo = "min_range (cls (ant_heap s self))"
  let ?hi = "max_range (cls (ant_heap s self))"
  from nearest_bee_loop_chain [OF assms, of self r 0] obtain target where
    ret: "nearest_bee s self hv r = Some (Inr target)"
    and char: "case target of
                 None \<Rightarrow>
                   (\<forall>i < length ps. ?lo \<le> 0 + i \<and> 0 + i \<le> ?hi
                      \<longrightarrow> bees (place_heap s (ps ! i)) = [])
               | Some b \<Rightarrow>
                   (\<exists>i < length ps. ?lo \<le> 0 + i \<and> 0 + i \<le> ?hi
                      \<and> b \<in> set (bees (place_heap s (ps ! i)))
                      \<and> (\<forall>j < i. ?lo \<le> 0 + j \<and> 0 + j \<le> ?hi
                                   \<longrightarrow> bees (place_heap s (ps ! j)) = []))"
    unfolding nearest_bee_def by blast
  show ?thesis
  proof (cases target)
    case None
    with ret char show ?thesis by simp
  next
    case (Some b)
    with char obtain i where i: "i < length ps" "?lo \<le> i" "i \<le> ?hi"
      "b \<in> set (bees (place_heap s (ps ! i)))"
      "\<forall>j < i. ?lo \<le> j \<and> j \<le> ?hi \<longrightarrow> bees (place_heap s (ps ! j)) = []"
      by auto
    have "cls (ant_heap s self) = ShortThrower \<longrightarrow> i \<le> 2"
      "cls (ant_heap s self) = LongThrower \<longrightarrow> 4 \<le> i"
      using i(2,3) by auto
    with i ret Some show ?thesis by auto
  qed
qed

lemma bee_game_chain:
  "entrance_chain bee_game 0 (place (ant_heap bee_game 0)) [2, 3, 4, 5, 6, 7, 8, 9]"
  by (simp add: eval_defs)

lemma bee_game_bees:
  "\<forall>i < 8. bees (place_heap bee_game ([2, 3, 4, 5, 6, 7, 8, 9] ! i)) = (if i = 7 then [0] else [])"
  by (simp add: eval_defs less_Suc_eq numeral_eq_Suc)


lemma bee_game_thrower: "cls (ant_heap bee_game 0) = ThrowerAnt"
  by (simp add: eval_defs)

lemma bee_game_nearest: "nearest_bee bee_game 0 0 5 = Some (Inr (Some 0))"
  by (simp add: eval_defs nearest_bee_def nearest_bee_loop.simps random_or_none_def)

theorem nearest_bee_in_range_witness:
  "nearest_bee bee_game 0 0 5 = Some (Inr (Some 0))
   \<and> (\<exists>i < length [2, 3, 4, 5, 6, 7, 8, 9 :: nat].
          min_range ThrowerAnt \<le> i \<and> i \<le> max_range ThrowerAnt
          \<and> 0 \<in> set (bees (place_heap bee_game ([2, 3, 4, 5, 6, 7, 8, 9] ! i))))"
proof -
  from nearest_bee_in_range [OF bee_game_chain, of 5] obtain target where
    ret: "nearest_bee bee_game 0 0 5 = Some (Inr target)"
    and char: "case target of
        None \<Rightarrow> (\<forall>i<length [2, 3, 4, 5, 6, 7, 8, 9 :: nat].
            min_range (cls (ant_heap bee_game 0)) \<le> i \<and> i \<le> max_range (cls (ant_heap bee_game 0))
            \<longrightarrow> bees (place_heap bee_game ([2, 3, 4, 5, 6, 7, 8, 9] ! i)) = [])
      | Some b \<Rightarrow> (\<exists>i<length [2, 3, 4, 5, 6, 7, 8, 9 :: nat].
            min_range (cls (ant_heap bee_game 0)) \<le> i \<and> i \<le> max_range (cls (ant_heap bee_game 0))
            \<and> (cls (ant_heap bee_game 0) = ShortThrower \<longrightarrow> i \<le> 2)
            \<and> (cls (ant_heap bee_game 0) = LongThrower \<longrightarrow> 4 \<le> i)
            \<and> b \<in> set (bees (place_heap bee_game ([2, 3, 4, 5, 6, 7, 8, 9] ! i)))
            \<and> (\<forall>j<i. min_range (cls (ant_heap bee_game 0)) \<le> j
                      \<and> j \<le> max_range (cls (ant_heap bee_game 0))
                      \<longrightarrow> bees (place_heap bee_game ([2, 3, 4, 5, 6, 7, 8, 9] ! j)) = []))"
    by blast
  from ret bee_game_nearest have "target = Some 0" by simp
  with char obtain i where "i < length [2, 3, 4, 5, 6, 7, 8, 9 :: nat]"
    "min_range (cls (ant_heap bee_game 0)) \<le> i" "i \<le> max_range (cls (ant_heap bee_game 0))"
    "0 \<in> set (bees (place_heap bee_game ([2, 3, 4, 5, 6, 7, 8, 9] ! i)))"
    by (auto simp del: length_Cons list.size)
  then show ?thesis
    unfolding bee_game_thrower using bee_game_nearest by blast
qed

section \<open>The order of all_bees\<close>

lemma keys_setdefault_extend:
  "map fst (setdefault_extend t new d)
     = (if t \<in> fst ` set d then map fst d else map fst d @ [t])"
  by (induction d) (fastforce simp: image_iff)+

lemma map_of_setdefault_extend:
  "map_of (setdefault_extend t new d) k
     = (if k = t then Some ((case map_of d t of None \<Rightarrow> [] | Some w \<Rightarrow> w) @ new)
        else map_of d k)"
  by (induction d) auto

lemma concat_setdefault_extend_new:
  "t \<notin> fst ` set d \<Longrightarrow>
     concat (map snd (setdefault_extend t new d)) = concat (map snd d) @ new"
  by (induction d) (auto simp: image_iff)

lemma sorted_setdefault_extend:
  "sorted (map fst d) \<Longrightarrow> \<forall>k \<in> fst ` set d. k \<le> t \<Longrightarrow>
     sorted (map fst (setdefault_extend t new d))"
  by (auto simp: keys_setdefault_extend sorted_append)

lemma new_bees_refs: "fst (new_bees n a s) = [next_bee s ..< next_bee s + n]"
proof (induction n arbitrary: s)
  case 0
  then show ?case by simp
next
  case (Suc n)
  have "next_bee (snd (new_bee a s)) = Suc (next_bee s)" "fst (new_bee a s) = next_bee s"
    by (simp_all add: new_bee_def Let_def)
  with Suc [of "snd (new_bee a s)"] show ?case
    by (simp add: split_beta upt_conv_Cons)
qed

text \<open>
  Claim C8, as the code has it. \<open>all_bees\<close> is the concatenation of the waves in the order
  of the dictionary, which is the order in which the times were first added: \<open>add_wave\<close>
  with a time not yet in the plan puts its wave last, whatever the time, and with a time
  already there appends the new bees to that wave and moves nothing. The new bees are
  \<open>count\<close> fresh ones (none for a count below one). So the times come in ascending order
  when each call's time is at least the times already in the plan. \<open>all_bees\<close> is a
  function of the plan: every call computes the same finite list.
\<close>

theorem all_bees_insertion_order:
  "map fst (waves (fst (add_wave t count (plan, s))))
     = (if t \<in> fst ` set (waves plan) then map fst (waves plan) else map fst (waves plan) @ [t])
   \<and> map_of (waves (fst (add_wave t count (plan, s)))) t
     = Some ((case map_of (waves plan) t of None \<Rightarrow> [] | Some w \<Rightarrow> w)
             @ [next_bee s ..< next_bee s + nat count])
   \<and> (\<forall>k. k \<noteq> t \<longrightarrow> map_of (waves (fst (add_wave t count (plan, s)))) k = map_of (waves plan) k)
   \<and> all_bees (fst (add_wave t count (plan, s)))
     = concat (map snd (waves (fst (add_wave t count (plan, s)))))
   \<and> (t \<notin> fst ` set (waves plan) \<longrightarrow>
        all_bees (fst (add_wave t count (plan, s)))
          = all_bees plan @ [next_bee s ..< next_bee s + nat count])
   \<and> (sorted (map fst (waves plan)) \<and> (\<forall>k \<in> fst ` set (waves plan). k \<le> t) \<longrightarrow>
        sorted (map fst (waves (fst (add_wave t count (plan, s))))))"
proof -
  let ?new = "fst (new_bees (nat count) (bee_armor plan) s)"
  have w: "waves (fst (add_wave t count (plan, s))) = setdefault_extend t ?new (waves plan)"
    by (simp add: add_wave_def split_beta)
  have new: "?new = [next_bee s ..< next_bee s + nat count]"
    by (rule new_bees_refs)
  have "sorted (map fst (waves plan)) \<and> (\<forall>k \<in> fst ` set (waves plan). k \<le> t) \<longrightarrow>
        sorted (map fst (setdefault_extend t ?new (waves plan)))"
    using sorted_setdefault_extend [of "waves plan" t ?new] by blast
  moreover have "t \<notin> fst ` set (waves plan) \<longrightarrow>
      concat (map snd (setdefault_extend t ?new (waves plan))) = concat (map snd (waves plan)) @ ?new"
    using concat_setdefault_extend_new [of t "waves plan" ?new] by blast
  ultimately show ?thesis
    unfolding w all_bees_def
    by (simp only: keys_setdefault_extend map_of_setdefault_extend new) simp
qed

theorem all_bees_insertion_order_witness:
  "map fst (waves (fst (add_wave 3 1 (add_wave 2 1 (AssaultPlan 3, empty_world))))) = [2, 3]
   \<and> map_of (waves (fst (add_wave 3 1 (add_wave 2 1 (AssaultPlan 3, empty_world))))) 3 = Some [1]
   \<and> all_bees (fst (add_wave 3 1 (add_wave 2 1 (AssaultPlan 3, empty_world)))) = [0, 1]
   \<and> sorted (map fst (waves (fst (add_wave 3 1 (add_wave 2 1 (AssaultPlan 3, empty_world))))))"
proof -
  have p: "add_wave 2 1 (AssaultPlan 3, empty_world)
      = (fst (add_wave 2 1 (AssaultPlan 3, empty_world)), snd (add_wave 2 1 (AssaultPlan 3, empty_world)))"
    by simp
  have facts: "waves (fst (add_wave 2 1 (AssaultPlan 3, empty_world))) = [(2, [0])]"
    "next_bee (snd (add_wave 2 1 (AssaultPlan 3, empty_world))) = 1"
    by (simp_all add: eval_defs)
  show ?thesis
    using all_bees_insertion_order [of 3 1 "fst (add_wave 2 1 (AssaultPlan 3, empty_world))"
        "snd (add_wave 2 1 (AssaultPlan 3, empty_world))"] facts
    by (simp add: all_bees_def)
qed

text \<open>
  The claim as stated promises ascending turns however the waves were added: with the wave
  of turn 3 added before the wave of turn 2, the bee of turn 3 comes first.
\<close>

theorem all_bees_not_by_turn:
  "waves (fst (add_wave 2 1 (add_wave 3 1 (AssaultPlan 3, empty_world)))) = [(3, [0]), (2, [1])]
   \<and> all_bees (fst (add_wave 2 1 (add_wave 3 1 (AssaultPlan 3, empty_world)))) = [0, 1]"
  by (simp add: eval_defs)

section \<open>The first Queen and the others\<close>

lemma new_ant_numbered:
  assumes "queens_numbered s"
  shows "queens_numbered (snd (new_ant c s))"
proof -
  let ?s' = "snd (new_ant c s)"
  have heap: "ant_heap ?s' a = (if a = next_ant s
      then \<lparr>armor = init_armor c, place = None, cls = c, damage = class_damage c,
            contained = None,
            instance_num = (if c = QueenAnt then number_of_queens s else 0),
            doubled_ants = [], digesting = 0\<rparr>
      else ant_heap s a)" for a
    by (simp add: new_ant_def Let_def)
  have new: "next_ant ?s' = Suc (next_ant s)"
    "number_of_queens ?s' = (if c = QueenAnt then number_of_queens s + 1 else number_of_queens s)"
    by (simp_all add: new_ant_def Let_def)
  from assms have pos: "0 \<le> number_of_queens s"
    and old: "\<And>a. a < next_ant s \<Longrightarrow> cls (ant_heap s a) = QueenAnt \<Longrightarrow>
      0 \<le> instance_num (ant_heap s a) \<and> instance_num (ant_heap s a) < number_of_queens s"
    and inj: "\<And>a b. a < next_ant s \<Longrightarrow> b < next_ant s \<Longrightarrow> cls (ant_heap s a) = QueenAnt \<Longrightarrow>
      cls (ant_heap s b) = QueenAnt \<Longrightarrow>
      instance_num (ant_heap s a) = instance_num (ant_heap s b) \<Longrightarrow> a = b"
    unfolding queens_numbered_def by blast+
  have "0 \<le> number_of_queens ?s'"
    using pos new by simp
  moreover have "0 \<le> instance_num (ant_heap ?s' a)
      \<and> instance_num (ant_heap ?s' a) < number_of_queens ?s'"
    if "a < next_ant ?s'" "cls (ant_heap ?s' a) = QueenAnt" for a
    using that old [of a] pos by (auto simp: heap new less_Suc_eq split: if_splits)
  moreover have "a = b"
    if "a < next_ant ?s'" "b < next_ant ?s'" "cls (ant_heap ?s' a) = QueenAnt"
      "cls (ant_heap ?s' b) = QueenAnt"
      "instance_num (ant_heap ?s' a) = instance_num (ant_heap ?s' b)" for a b
    using that old [of a] old [of b] inj [of a b]
    by (auto simp: heap new less_Suc_eq split: if_splits)
  ultimately show ?thesis
    unfolding queens_numbered_def by blast
qed

lemma queens_numbered_one_first:
  assumes "queens_numbered s"
    and "a < next_ant s" "cls (ant_heap s a) = QueenAnt" "instance_num (ant_heap s a) = 0"
    and "b < next_ant s" "cls (ant_heap s b) = QueenAnt" "instance_num (ant_heap s b) = 0"
  shows "a = b"
  using assms unfolding queens_numbered_def by metis

lemma impostor_dies:
  assumes "cls (ant_heap s q) = QueenAnt" and "0 < instance_num (ant_heap s q)"
    and "place (ant_heap s q) = Some p" and "ant (place_heap s p) = Some q"
  shows "\<exists>s'. QueenAnt_action q r s = Some (Inr s') \<and> armor (ant_heap s' q) = 0
           \<and> ant (place_heap s' p) = None \<and> place (ant_heap s' q) = None"
  using assms
  by (simp add: QueenAnt_action_def reduce_armor_def Insect_reduce_armor_def Let_def
      insect_armor_def insect_place_def remove_insect_def)

lemma first_queen_stays:
  assumes "cls (ant_heap s q) = QueenAnt" and "instance_num (ant_heap s q) = 0"
  shows "remove_insect p (AntRef q) s
           = (if ant (place_heap s p) = Some q then Inr s else Inl AssertionError)"
  using assms by (simp add: remove_insect_def)

lemma guarded_impostor_game_facts:
  "cls (ant_heap guarded_impostor_game 2) = QueenAnt"
  "instance_num (ant_heap guarded_impostor_game 2) = 1"
  "place (ant_heap guarded_impostor_game 2) = Some 3"
  "ant (place_heap guarded_impostor_game 3) = Some 1"
  "cls (ant_heap guarded_impostor_game 1) = BodyguardAnt"
  "contained (ant_heap guarded_impostor_game 1) = Some 2"
  "colony_ants guarded_impostor_game = [0, 1]"
  by (simp_all add: eval_defs)

text \<open>
  Claim C6 says that every Queen created after the first, when it acts, reduces its armor
  to zero and is removed from its place; the docstring of \<open>QueenAnt.action\<close> says the same
  (``Impostor queens do only one thing: die''). The code does so for a later Queen that
  occupies the ant slot of her place (\<open>impostor_dies\<close>). For a later Queen that is not the
  slot's occupant, as when she was added to a place that held a Bodyguard and is hidden in
  it, her action sets her armor to zero and then fails the assertion of \<open>remove_insect\<close>:
  the action raises \<open>AssertionError\<close> and she is not removed.
\<close>

theorem hidden_impostor_raises:
  assumes "cls (ant_heap s q) = QueenAnt" and "0 < instance_num (ant_heap s q)"
    and "place (ant_heap s q) = Some p" and "ant (place_heap s p) \<noteq> Some q"
  shows "QueenAnt_action q r s = Some (Inl AssertionError)"
  using assms
  by (simp add: QueenAnt_action_def reduce_armor_def Insect_reduce_armor_def Let_def
      insect_armor_def insect_place_def remove_insect_def)

text \<open>
  The game of the example: the first Queen in one place, a Bodyguard in the next, and a
  second Queen added to the Bodyguard's place. The ants of the colony are the first Queen
  and the Bodyguard; the turn of the Bodyguard is the action of the Queen it holds.
\<close>

theorem hidden_impostor_not_removed:
  "cls (ant_heap guarded_impostor_game 2) = QueenAnt
   \<and> instance_num (ant_heap guarded_impostor_game 2) = 1
   \<and> place (ant_heap guarded_impostor_game 2) = Some 3
   \<and> ant (place_heap guarded_impostor_game 3) = Some 1
   \<and> contained (ant_heap guarded_impostor_game 1) = Some 2
   \<and> colony_ants guarded_impostor_game = [0, 1]
   \<and> ant_action (\<lambda>i. 0) 1 guarded_impostor_game = Some (Inl AssertionError)
   \<and> QueenAnt_action 2 0 guarded_impostor_game = Some (Inl AssertionError)"
  using hidden_impostor_raises [of guarded_impostor_game 2 3 0] guarded_impostor_game_facts
  by (simp add: ant_action.simps)

section \<open>Bees waiting in the Hive\<close>



















section \<open>The Queen's action\<close>




















end
